theory Spec2Isabelle
  imports Main "HOL-Library.Word"
begin

unbundle bit_operations_syntax

section \<open>Values, columns and data frames\<close>

text \<open>
  A cell of a pandas DataFrame.  \<open>NoneV\<close> is Python's \<open>None\<close>, \<open>NaN\<close> the float
  not-a-number, \<open>Str\<close> a text value (its UTF-8 bytes), \<open>Num\<close> a number and \<open>Ts\<close> a
  timestamp.  The payload of a number is a type parameter: floating-point values are
  not interpreted, only moved around.
\<close>

datatype 'n cell = NoneV | NaN | Str string | Num 'n | Ts nat

text \<open>\<open>pd.isnull\<close> / \<open>pd.notnull\<close> on one cell.\<close>

fun isnull :: "'n cell \<Rightarrow> bool" where
  "isnull NoneV = True"
| "isnull NaN = True"
| "isnull _ = False"

text \<open>
  A DataFrame: the length of its index and its labelled columns, in column order.
\<close>

record 'n frame =
  nrows :: nat
  cols :: "(string \<times> 'n cell list) list"

datatype error =
    KeyError string
  | SchemaError string string
  | FileNotFoundError
  | ReadError string
  | StatementError string

text \<open>
  The parts of the Python runtime and of pandas that are not interpreted: the float
  denoted by a numeric token, the text \<open>str()\<close> prints for a number and for a
  timestamp, and \<open>pd.read_csv(text, sep=..., skiprows=..., quotechar=...)\<close>, which
  returns a frame or raises.
\<close>

record 'n runtime =
  num_of :: "string \<Rightarrow> 'n"
  num_str :: "'n \<Rightarrow> string"
  ts_str :: "nat \<Rightarrow> string"
  read_csv :: "string \<Rightarrow> string \<Rightarrow> nat \<Rightarrow> char \<Rightarrow> error + 'n frame"

definition columns :: "'n frame \<Rightarrow> string list" where
  "columns df = map fst (cols df)"

text \<open>Labels are unique and every column is as long as the index.\<close>

definition well_formed :: "'n frame \<Rightarrow> bool" where
  "well_formed df \<longleftrightarrow>
     distinct (columns df) \<and> list_all (\<lambda>cv. length (snd cv) = nrows df) (cols df)"

text \<open>\<open>df[c]\<close>: a missing label raises \<open>KeyError\<close>.\<close>

definition getitem :: "'n frame \<Rightarrow> string \<Rightarrow> error + 'n cell list" where
  "getitem df c = (case map_of (cols df) c of None \<Rightarrow> Inl (KeyError c) | Some v \<Rightarrow> Inr v)"

text \<open>\<open>df[c] = v\<close>: replaces the column in place, or appends a new last column.\<close>

definition setitem :: "'n frame \<Rightarrow> string \<Rightarrow> 'n cell list \<Rightarrow> 'n frame" where
  "setitem df c v =
     (if c \<in> set (columns df)
      then df\<lparr>cols := map (\<lambda>(n, x). if n = c then (n, v) else (n, x)) (cols df)\<rparr>
      else df\<lparr>cols := cols df @ [(c, v)]\<rparr>)"

text \<open>\<open>df[[c for c in names if c in df.columns]]\<close>: the listed columns that exist, in the listed order.\<close>

definition select_present :: "string list \<Rightarrow> 'n frame \<Rightarrow> 'n frame" where
  "select_present names df =
     df\<lparr>cols := List.map_filter (\<lambda>c. map_option (Pair c) (map_of (cols df) c)) names\<rparr>"

text \<open>\<open>df.rename(columns=mapping)\<close>: labels outside the mapping are kept.\<close>

definition rename_label :: "(string \<times> string) list \<Rightarrow> string \<Rightarrow> string" where
  "rename_label mapping n = (case map_of mapping n of None \<Rightarrow> n | Some n' \<Rightarrow> n')"

definition rename :: "(string \<times> string) list \<Rightarrow> 'n frame \<Rightarrow> 'n frame" where
  "rename mapping df = df\<lparr>cols := map (\<lambda>(n, x). (rename_label mapping n, x)) (cols df)\<rparr>"

text \<open>An elementwise operation on the whole frame.\<close>

definition map_cells :: "('n cell \<Rightarrow> 'n cell) \<Rightarrow> 'n frame \<Rightarrow> 'n frame" where
  "map_cells f df = df\<lparr>cols := map (\<lambda>(n, x). (n, map f x)) (cols df)\<rparr>"

text \<open>The cell at a label and a row position, when both exist.\<close>

definition cell_at :: "'n frame \<Rightarrow> string \<Rightarrow> nat \<Rightarrow> 'n cell option" where
  "cell_at df c i =
     (case map_of (cols df) c of
        None \<Rightarrow> None
      | Some v \<Rightarrow> if i < length v then Some (v ! i) else None)"

text \<open>
  \<open>for col in names: df[col] = f(df[col])\<close>; reading a missing column raises.
\<close>

fun for_each_column :: "('n cell list \<Rightarrow> 'n cell list) \<Rightarrow> string list \<Rightarrow> 'n frame \<Rightarrow> error + 'n frame" where
  "for_each_column f [] df = Inr df"
| "for_each_column f (c # cs) df =
     (case getitem df c of
        Inl e \<Rightarrow> Inl e
      | Inr v \<Rightarrow> for_each_column f cs (setitem df c (f v)))"

text \<open>A loop whose body may raise: the first exception ends it.\<close>

fun map_err :: "('a \<Rightarrow> error + 'b) \<Rightarrow> 'a list \<Rightarrow> error + 'b list" where
  "map_err f [] = Inr []"
| "map_err f (x # xs) =
     (case f x of
        Inl e \<Rightarrow> Inl e
      | Inr y \<Rightarrow> (case map_err f xs of Inl e \<Rightarrow> Inl e | Inr ys \<Rightarrow> Inr (y # ys)))"

section \<open>Strings\<close>

text \<open>
  The characters \<open>str.strip()\<close> removes, restricted to the one-byte code points: tab,
  line feed, vertical tab, form feed, carriage return, the four separators
  \<open>0x1C\<close> to \<open>0x1F\<close>, and space.
\<close>

definition is_space :: "char \<Rightarrow> bool" where
  "is_space c \<longleftrightarrow> of_char c \<in> set [9, 10, 11, 12, 13, 28, 29, 30, 31, 32 :: nat]"

definition py_strip :: "string \<Rightarrow> string" where
  "py_strip s = rev (dropWhile is_space (rev (dropWhile is_space s)))"

text \<open>\<open>sep.join(parts)\<close>.\<close>

fun py_join :: "string \<Rightarrow> string list \<Rightarrow> string" where
  "py_join sep [] = []"
| "py_join sep [x] = x"
| "py_join sep (x # y # ys) = x @ sep @ py_join sep (y # ys)"

text \<open>\<open>str(v)\<close> of a cell, also what \<open>astype(str)\<close> does to each element.\<close>

fun py_str :: "'n runtime \<Rightarrow> 'n cell \<Rightarrow> string" where
  "py_str R NoneV = ''None''"
| "py_str R NaN = ''nan''"
| "py_str R (Str s) = s"
| "py_str R (Num n) = num_str R n"
| "py_str R (Ts t) = ts_str R t"

section \<open>MD5 (\<open>hashlib.md5(...).hexdigest()\<close>)\<close>

type_synonym u32 = "32 word"
type_synonym md5_state = "u32 \<times> u32 \<times> u32 \<times> u32"

definition md5_K :: "u32 list" where
  "md5_K = [
    0xd76aa478, 0xe8c7b756, 0x242070db, 0xc1bdceee, 0xf57c0faf, 0x4787c62a, 0xa8304613, 0xfd469501,
    0x698098d8, 0x8b44f7af, 0xffff5bb1, 0x895cd7be, 0x6b901122, 0xfd987193, 0xa679438e, 0x49b40821,
    0xf61e2562, 0xc040b340, 0x265e5a51, 0xe9b6c7aa, 0xd62f105d, 0x02441453, 0xd8a1e681, 0xe7d3fbc8,
    0x21e1cde6, 0xc33707d6, 0xf4d50d87, 0x455a14ed, 0xa9e3e905, 0xfcefa3f8, 0x676f02d9, 0x8d2a4c8a,
    0xfffa3942, 0x8771f681, 0x6d9d6122, 0xfde5380c, 0xa4beea44, 0x4bdecfa9, 0xf6bb4b60, 0xbebfbc70,
    0x289b7ec6, 0xeaa127fa, 0xd4ef3085, 0x04881d05, 0xd9d4d039, 0xe6db99e5, 0x1fa27cf8, 0xc4ac5665,
    0xf4292244, 0x432aff97, 0xab9423a7, 0xfc93a039, 0x655b59c3, 0x8f0ccc92, 0xffeff47d, 0x85845dd1,
    0x6fa87e4f, 0xfe2ce6e0, 0xa3014314, 0x4e0811a1, 0xf7537e82, 0xbd3af235, 0x2ad7d2bb, 0xeb86d391]"

definition md5_S :: "nat list" where
  "md5_S = [
    7, 12, 17, 22, 7, 12, 17, 22, 7, 12, 17, 22, 7, 12, 17, 22,
    5, 9, 14, 20, 5, 9, 14, 20, 5, 9, 14, 20, 5, 9, 14, 20,
    4, 11, 16, 23, 4, 11, 16, 23, 4, 11, 16, 23, 4, 11, 16, 23,
    6, 10, 15, 21, 6, 10, 15, 21, 6, 10, 15, 21, 6, 10, 15, 21]"

definition rotl32 :: "nat \<Rightarrow> u32 \<Rightarrow> u32" where
  "rotl32 n x = (push_bit n x) OR (drop_bit (32 - n) x)"

text \<open>
  Padding: one \<open>0x80\<close> byte, zero bytes up to 56 modulo 64, then the bit length of the
  message as eight little-endian bytes.
\<close>

definition md5_pad :: "8 word list \<Rightarrow> 8 word list" where
  "md5_pad bs =
     bs @ [0x80] @ replicate ((119 - length bs mod 64) mod 64) 0
        @ map (\<lambda>i. ucast (drop_bit (8 * i) (word_of_nat (8 * length bs) :: 64 word))) [0..<8]"

definition le32 :: "8 word list \<Rightarrow> u32" where
  "le32 bs = foldr (\<lambda>b acc. ucast b OR push_bit 8 acc) bs 0"

fun chunks :: "nat \<Rightarrow> 'a list \<Rightarrow> 'a list list" where
  "chunks 0 xs = []"
| "chunks (Suc f) xs = (if xs = [] then [] else take 64 xs # chunks f (drop 64 xs))"

definition block_words :: "8 word list \<Rightarrow> u32 list" where
  "block_words blk = map (\<lambda>j. le32 (take 4 (drop (4 * j) blk))) [0..<16]"

definition md5_round :: "u32 list \<Rightarrow> md5_state \<Rightarrow> nat \<Rightarrow> md5_state" where
  "md5_round M st i =
     (case st of (a, b, c, d) \<Rightarrow>
        let (f, g) =
              (if i < 16 then ((b AND c) OR (NOT b AND d), i)
               else if i < 32 then ((d AND b) OR (NOT d AND c), (5 * i + 1) mod 16)
               else if i < 48 then (b XOR c XOR d, (3 * i + 5) mod 16)
               else (c XOR (b OR NOT d), (7 * i) mod 16));
            f' = f + a + md5_K ! i + M ! g
        in (d, b + rotl32 (md5_S ! i) f', b, c))"

definition md5_block :: "md5_state \<Rightarrow> 8 word list \<Rightarrow> md5_state" where
  "md5_block st blk =
     (case st of (a0, b0, c0, d0) \<Rightarrow>
        case foldl (md5_round (block_words blk)) st [0..<64] of (a, b, c, d) \<Rightarrow>
          (a0 + a, b0 + b, c0 + c, d0 + d))"

definition word_bytes :: "u32 \<Rightarrow> 8 word list" where
  "word_bytes w = map (\<lambda>i. ucast (drop_bit (8 * i) w)) [0..<4]"

definition md5_digest :: "8 word list \<Rightarrow> 8 word list" where
  "md5_digest bs =
     (let p = md5_pad bs in
      case foldl md5_block (0x67452301, 0xefcdab89, 0x98badcfe, 0x10325476)
             (chunks (length p) p) of
        (a, b, c, d) \<Rightarrow> word_bytes a @ word_bytes b @ word_bytes c @ word_bytes d)"

definition hex_digits :: string where
  "hex_digits = ''0123456789abcdef''"

definition hex_digit :: "nat \<Rightarrow> char" where
  "hex_digit n = hex_digits ! (n mod 16)"

definition hex_byte :: "8 word \<Rightarrow> string" where
  "hex_byte b = [hex_digit (unat b div 16), hex_digit (unat b mod 16)]"

text \<open>\<open>s.encode()\<close>: a string is kept as its UTF-8 bytes, so this only changes the type.\<close>

definition encode :: "string \<Rightarrow> 8 word list" where
  "encode s = map (\<lambda>c. word_of_nat (of_char c)) s"

definition md5_hexdigest :: "string \<Rightarrow> string" where
  "md5_hexdigest s = concat (map hex_byte (md5_digest (encode s)))"

section \<open>Numeric tokens (\<open>pd.to_numeric\<close>)\<close>

definition is_digit :: "char \<Rightarrow> bool" where
  "is_digit c \<longleftrightarrow> c \<in> set ''0123456789''"

text \<open>The C locale's \<open>isspace\<close>, which the float parser skips around a token.\<close>

definition c_space :: "char \<Rightarrow> bool" where
  "c_space c \<longleftrightarrow> of_char c \<in> set [9, 10, 11, 12, 13, 32 :: nat]"

definition skip_sign :: "string \<Rightarrow> string" where
  "skip_sign s = (case s of [] \<Rightarrow> [] | c # r \<Rightarrow> if c = CHR ''+'' \<or> c = CHR ''-'' then r else s)"

text \<open>An exponent is consumed only when it has at least one digit.\<close>

definition skip_exponent :: "string \<Rightarrow> string" where
  "skip_exponent s =
     (case s of
        [] \<Rightarrow> []
      | c # r \<Rightarrow>
          if (c = CHR ''e'' \<or> c = CHR ''E'') \<and> takeWhile is_digit (skip_sign r) \<noteq> []
          then dropWhile is_digit (skip_sign r) else s)"

text \<open>
  A decimal literal: optional blanks, optional sign, digits with an optional decimal
  point (at least one digit in all), optional exponent, optional blanks, nothing else.
\<close>

definition is_decimal :: "string \<Rightarrow> bool" where
  "is_decimal s =
     (let t = skip_sign (dropWhile c_space s);
          ip = takeWhile is_digit t;
          r1 = dropWhile is_digit t;
          fp = (case r1 of [] \<Rightarrow> [] | c # r \<Rightarrow> if c = CHR ''.'' then takeWhile is_digit r else []);
          r2 = (case r1 of [] \<Rightarrow> [] | c # r \<Rightarrow> if c = CHR ''.'' then dropWhile is_digit r else r1)
      in (ip \<noteq> [] \<or> fp \<noteq> []) \<and> dropWhile c_space (skip_exponent r2) = [])"

definition lower_char :: "char \<Rightarrow> char" where
  "lower_char c =
     (if 65 \<le> (of_char c :: nat) \<and> (of_char c :: nat) \<le> 90 then char_of (of_char c + (32 :: nat)) else c)"

definition is_infinity :: "string \<Rightarrow> bool" where
  "is_infinity s \<longleftrightarrow>
     map lower_char s \<in> set [''inf'', ''+inf'', ''-inf'', ''infinity'', ''+infinity'', ''-infinity'']"

text \<open>
  One element of \<open>pd.to_numeric(col, errors="coerce")\<close>: a number stays, a text that
  denotes a number is converted, everything else (missing values, the empty string,
  the spellings of not-a-number, unparseable text) becomes \<open>NaN\<close>.
\<close>

fun to_numeric :: "'n runtime \<Rightarrow> 'n cell \<Rightarrow> 'n cell" where
  "to_numeric R (Num n) = Num n"
| "to_numeric R (Str s) = (if is_decimal s \<or> is_infinity s then Num (num_of R s) else NaN)"
| "to_numeric R _ = NaN"

section \<open>FactTransformer\<close>

definition FACT_COLUMN_MAPPING :: "(string \<times> string) list" where
  "FACT_COLUMN_MAPPING =
     [(''TravelMotives'', ''travel_motive_key''),
      (''Population'', ''population_key''),
      (''TravelModes'', ''travel_mode_key''),
      (''Margins'', ''margin_key''),
      (''RegionCharacteristics'', ''region_key''),
      (''Periods'', ''period_key''),
      (''Trips_1'', ''trips_daily''),
      (''DistanceTravelled_2'', ''distance_daily''),
      (''TimeTravelled_3'', ''time_daily''),
      (''Trips_4'', ''trips_yearly''),
      (''DistanceTravelled_5'', ''distance_yearly''),
      (''TimeTravelled_6'', ''time_yearly'')]"

definition FK_COLUMNS :: "string list" where
  "FK_COLUMNS =
     [''travel_motive_key'', ''population_key'', ''travel_mode_key'',
      ''margin_key'', ''region_key'', ''period_key'']"

definition METRIC_COLUMNS :: "string list" where
  "METRIC_COLUMNS =
     [''trips_daily'', ''distance_daily'', ''time_daily'',
      ''trips_yearly'', ''distance_yearly'', ''time_yearly'']"

definition fact_rename_columns :: "'n frame \<Rightarrow> 'n frame" where
  "fact_rename_columns df = rename FACT_COLUMN_MAPPING df"

definition drop_unused_columns :: "'n frame \<Rightarrow> 'n frame" where
  "drop_unused_columns df = select_present ([''fact_id''] @ FK_COLUMNS @ METRIC_COLUMNS) df"

text \<open>\<open>astype(str).str.strip()\<close> on one element.\<close>

definition str_strip :: "'n runtime \<Rightarrow> 'n cell \<Rightarrow> 'n cell" where
  "str_strip R c = Str (py_strip (py_str R c))"

definition cast_types :: "'n runtime \<Rightarrow> 'n frame \<Rightarrow> error + 'n frame" where
  "cast_types R df =
     (case for_each_column (map (str_strip R)) FK_COLUMNS df of
        Inl e \<Rightarrow> Inl e
      | Inr df1 \<Rightarrow> for_each_column (map (to_numeric R)) METRIC_COLUMNS df1)"

text \<open>\<open>replace({".": float("nan")})\<close> on one element.\<close>

definition replace_dot :: "'n cell \<Rightarrow> 'n cell" where
  "replace_dot c = (if c = Str ''.'' then NaN else c)"

text \<open>\<open>df.where(pd.notnull(df), None)\<close> on one element.\<close>

definition where_notnull :: "'n cell \<Rightarrow> 'n cell" where
  "where_notnull c = (if isnull c then NoneV else c)"

definition fact_handle_nulls :: "'n frame \<Rightarrow> error + 'n frame" where
  "fact_handle_nulls df =
     (case for_each_column (map replace_dot) METRIC_COLUMNS df of
        Inl e \<Rightarrow> Inl e
      | Inr df1 \<Rightarrow> Inr (map_cells where_notnull df1))"

text \<open>The row at a position, as the mapping from label to value that \<open>apply(axis=1)\<close> passes.\<close>

definition row_at :: "'n frame \<Rightarrow> nat \<Rightarrow> string \<Rightarrow> 'n cell option" where
  "row_at df i c = cell_at df c i"

definition row_get :: "(string \<Rightarrow> 'n cell option) \<Rightarrow> string \<Rightarrow> error + 'n cell" where
  "row_get row c = (case row c of None \<Rightarrow> Inl (KeyError c) | Some v \<Rightarrow> Inr v)"

definition hash_row :: "'n runtime \<Rightarrow> (string \<Rightarrow> 'n cell option) \<Rightarrow> error + string" where
  "hash_row R row =
     (case map_err (row_get row) FK_COLUMNS of
        Inl e \<Rightarrow> Inl e
      | Inr vs \<Rightarrow> Inr (md5_hexdigest (py_join ''|'' (map (py_str R) vs))))"

definition compute_fact_id :: "'n runtime \<Rightarrow> 'n frame \<Rightarrow> error + 'n frame" where
  "compute_fact_id R df =
     (case map_err (\<lambda>i. hash_row R (row_at df i)) [0..<nrows df] of
        Inl e \<Rightarrow> Inl e
      | Inr hs \<Rightarrow> Inr (setitem df ''fact_id'' (map Str hs)))"

text \<open>The timestamp is read once and broadcast to every row.\<close>

definition add_audit_columns :: "nat \<Rightarrow> 'n frame \<Rightarrow> 'n frame" where
  "add_audit_columns now df = setitem df ''ingested_at'' (replicate (nrows df) (Ts now))"

definition FACT_COLUMN_ORDER :: "string list" where
  "FACT_COLUMN_ORDER = [''fact_id''] @ FK_COLUMNS @ METRIC_COLUMNS @ [''ingested_at'']"

definition reorder_columns :: "'n frame \<Rightarrow> 'n frame" where
  "reorder_columns df = select_present FACT_COLUMN_ORDER df"

text \<open>The methods of \<open>FactTransformer\<close> that a chain of calls can name.\<close>

datatype fact_step =
    RenameColumns
  | DropUnusedColumns
  | CastTypes
  | HandleNulls
  | ComputeFactId
  | AddAuditColumns
  | ReorderColumns

fun run_fact_step :: "'n runtime \<Rightarrow> nat \<Rightarrow> fact_step \<Rightarrow> 'n frame \<Rightarrow> error + 'n frame" where
  "run_fact_step R now RenameColumns df = Inr (fact_rename_columns df)"
| "run_fact_step R now DropUnusedColumns df = Inr (drop_unused_columns df)"
| "run_fact_step R now CastTypes df = cast_types R df"
| "run_fact_step R now HandleNulls df = fact_handle_nulls df"
| "run_fact_step R now ComputeFactId df = compute_fact_id R df"
| "run_fact_step R now AddAuditColumns df = Inr (add_audit_columns now df)"
| "run_fact_step R now ReorderColumns df = Inr (reorder_columns df)"

text \<open>A fluent chain \<open>self.a().b().c()\<close>: an exception in one call ends the chain.\<close>

fun run_fact_steps :: "'n runtime \<Rightarrow> nat \<Rightarrow> fact_step list \<Rightarrow> 'n frame \<Rightarrow> error + 'n frame" where
  "run_fact_steps R now [] df = Inr df"
| "run_fact_steps R now (s # ss) df =
     (case run_fact_step R now s df of
        Inl e \<Rightarrow> Inl e
      | Inr df' \<Rightarrow> run_fact_steps R now ss df')"

text \<open>
  The chain of \<open>FactTransformer.transform\<close>:
  \<open>rename_columns().cast_types().handle_nulls().compute_fact_id().add_audit_columns().reorder_columns()\<close>.
\<close>

definition FACT_TRANSFORM_CHAIN :: "fact_step list" where
  "FACT_TRANSFORM_CHAIN =
     [RenameColumns, CastTypes, HandleNulls, ComputeFactId, AddAuditColumns, ReorderColumns]"

text \<open>
  \<open>FactTransformer(df).transform()\<close>, on a copy of the input; \<open>now\<close> is what
  \<open>pd.Timestamp.now\<close> returns.
\<close>

definition fact_transform :: "'n runtime \<Rightarrow> nat \<Rightarrow> 'n frame \<Rightarrow> error + 'n frame" where
  "fact_transform R now df = run_fact_steps R now FACT_TRANSFORM_CHAIN df"

text \<open>
  The order of steps as the specification lists it (section 4.3): the drop of unused
  columns is step 2, right after the renaming.
\<close>

definition SPEC_FACT_CHAIN :: "fact_step list" where
  "SPEC_FACT_CHAIN =
     [RenameColumns, DropUnusedColumns, CastTypes, HandleNulls, ComputeFactId,
      AddAuditColumns, ReorderColumns]"

section \<open>DimensionTransformer\<close>

definition DIM_COLUMN_MAPPING :: "(string \<times> string) list" where
  "DIM_COLUMN_MAPPING = [(''Key'', ''key''), (''Title'', ''title''), (''Description'', ''description'')]"

definition TEXT_COLUMNS :: "string list" where
  "TEXT_COLUMNS = [''key'', ''title'', ''description'']"

definition dim_rename_columns :: "'n frame \<Rightarrow> 'n frame" where
  "dim_rename_columns df = rename DIM_COLUMN_MAPPING df"

text \<open>\<open>replace({"nan": None, "None": None})\<close> on one element.\<close>

definition replace_nan_text :: "'n cell \<Rightarrow> 'n cell" where
  "replace_nan_text c = (if c = Str ''nan'' \<or> c = Str ''None'' then NoneV else c)"

text \<open>
  \<open>for col in names: if col in df.columns: df[col] = f(df[col])\<close>.
\<close>

fun for_each_present :: "('n cell list \<Rightarrow> 'n cell list) \<Rightarrow> string list \<Rightarrow> 'n frame \<Rightarrow> 'n frame" where
  "for_each_present f [] df = df"
| "for_each_present f (c # cs) df =
     (case map_of (cols df) c of
        None \<Rightarrow> for_each_present f cs df
      | Some v \<Rightarrow> for_each_present f cs (setitem df c (f v)))"

text \<open>
  The body of the loop makes two assignments to the same column, the stripped text and
  then its replacement; they are composed here.
\<close>

definition clean_strings :: "'n runtime \<Rightarrow> 'n frame \<Rightarrow> 'n frame" where
  "clean_strings R df =
     for_each_present (\<lambda>v. map replace_nan_text (map (str_strip R) v)) TEXT_COLUMNS df"

text \<open>\<open>replace({"": None, " ": None})\<close> on one element.\<close>

definition replace_blank :: "'n cell \<Rightarrow> 'n cell" where
  "replace_blank c = (if c = Str [] \<or> c = Str '' '' then NoneV else c)"

definition dim_handle_nulls :: "'n frame \<Rightarrow> 'n frame" where
  "dim_handle_nulls df = map_cells replace_blank df"

text \<open>
  \<open>DimensionTransformer(df).transform()\<close>:
  \<open>rename_columns().clean_strings().handle_nulls().add_audit_columns()\<close>; no step raises.
\<close>

definition dim_transform :: "'n runtime \<Rightarrow> nat \<Rightarrow> 'n frame \<Rightarrow> 'n frame" where
  "dim_transform R now df =
     add_audit_columns now (dim_handle_nulls (clean_strings R (dim_rename_columns df)))"

section \<open>Inputs that differ by surrounding blanks\<close>

text \<open>Two cells that are equal, or texts that are equal once stripped.\<close>

fun same_up_to_padding :: "'n cell \<Rightarrow> 'n cell \<Rightarrow> bool" where
  "same_up_to_padding (Str s) (Str t) = (py_strip s = py_strip t)"
| "same_up_to_padding x y = (x = y)"






section \<open>Validator (pandera schemas)\<close>

text \<open>
  A \<open>Column(dtype, checks, nullable=..., unique=...)\<close> of a pandera schema.  The only
  check the repository uses is \<open>Check.isin(values)\<close>.
\<close>

datatype col_type = AnyType | StrType | FloatType

record 'n column_spec =
  ctype :: col_type
  nullable :: bool
  unique :: bool
  isin :: "'n cell list option"

type_synonym 'n schema = "(string \<times> 'n column_spec) list"

text \<open>
  pandera compares the dtype of the column as a whole; here the test is made on each
  cell: a \<open>str\<close> column holds only texts and a \<open>float\<close> column only numbers, nulls
  apart (whether nulls are accepted is the \<open>nullable\<close> test).
\<close>

fun type_ok :: "col_type \<Rightarrow> 'n cell \<Rightarrow> bool" where
  "type_ok AnyType c = True"
| "type_ok StrType (Str s) = True"
| "type_ok StrType c = isnull c"
| "type_ok FloatType (Num n) = True"
| "type_ok FloatType c = isnull c"

text \<open>
  The checks of one column, in the order pandera runs them; the first that fails is the
  \<open>SchemaError\<close> raised.  \<open>isin\<close> is applied to the non-null elements.
\<close>

definition check_column :: "string \<Rightarrow> 'n column_spec \<Rightarrow> 'n cell list \<Rightarrow> error + unit" where
  "check_column c spec v =
     (if \<not> nullable spec \<and> list_ex isnull v then Inl (SchemaError c ''nullable'')
      else if unique spec \<and> \<not> distinct v then Inl (SchemaError c ''unique'')
      else if \<not> list_all (type_ok (ctype spec)) v then Inl (SchemaError c ''dtype'')
      else (case isin spec of
              None \<Rightarrow> Inr ()
            | Some allowed \<Rightarrow>
                if list_all (\<lambda>x. isnull x \<or> x \<in> set allowed) v then Inr ()
                else Inl (SchemaError c ''isin'')))"

text \<open>
  \<open>DataFrameSchema(columns, strict=False).validate(df)\<close>: every column of the schema must
  be in the frame, then each is checked; columns outside the schema are ignored.  The
  frame is returned unchanged.
\<close>

definition validate_schema :: "'n schema \<Rightarrow> 'n frame \<Rightarrow> error + 'n frame" where
  "validate_schema schema df =
     (case find (\<lambda>cs. map_of (cols df) (fst cs) = None) schema of
        Some cs \<Rightarrow> Inl (SchemaError (fst cs) ''column not in dataframe'')
      | None \<Rightarrow>
          (case map_err (\<lambda>cs. check_column (fst cs) (snd cs) (the (map_of (cols df) (fst cs)))) schema of
             Inl e \<Rightarrow> Inl e
           | Inr _ \<Rightarrow> Inr df))"

definition dimension_schema :: "'n schema" where
  "dimension_schema =
     [(''key'', \<lparr>ctype = StrType, nullable = False, unique = True, isin = None\<rparr>),
      (''title'', \<lparr>ctype = StrType, nullable = False, unique = False, isin = None\<rparr>),
      (''description'', \<lparr>ctype = StrType, nullable = True, unique = False, isin = None\<rparr>),
      (''ingested_at'', \<lparr>ctype = AnyType, nullable = False, unique = False, isin = None\<rparr>)]"

text \<open>
  The dimensions are a Python dict from section name to frame: an association list
  with distinct keys, in insertion order.  \<open>dimensions[name]["key"]\<close> raises
  \<open>KeyError\<close> when the name, or the column, is missing.
\<close>

type_synonym 'n tables = "(string \<times> 'n frame) list"

definition dimension_keys :: "'n tables \<Rightarrow> string \<Rightarrow> error + 'n cell list" where
  "dimension_keys dimensions name =
     (case map_of dimensions name of
        None \<Rightarrow> Inl (KeyError name)
      | Some df \<Rightarrow> getitem df ''key'')"

text \<open>The foreign-key columns of the fact schema with the dimension each refers to, in source order.\<close>

definition FK_DIMENSIONS :: "(string \<times> string) list" where
  "FK_DIMENSIONS =
     [(''travel_motive_key'', ''TravelMotives''),
      (''population_key'', ''Population''),
      (''travel_mode_key'', ''TravelModes''),
      (''margin_key'', ''Margins''),
      (''region_key'', ''RegionCharacteristics''),
      (''period_key'', ''Periods'')]"

definition fk_column :: "string \<Rightarrow> 'n cell list \<Rightarrow> string \<times> 'n column_spec" where
  "fk_column c keys = (c, \<lparr>ctype = StrType, nullable = False, unique = False, isin = Some keys\<rparr>)"

definition metric_column :: "string \<Rightarrow> string \<times> 'n column_spec" where
  "metric_column c = (c, \<lparr>ctype = FloatType, nullable = True, unique = False, isin = None\<rparr>)"

text \<open>
  \<open>fact_schema(dimensions)\<close>: the dict literal is evaluated entry by entry, so the six
  lookups happen in the order of the foreign keys and the first missing one raises.
\<close>

definition fact_schema :: "'n tables \<Rightarrow> error + 'n schema" where
  "fact_schema dimensions =
     (case map_err (\<lambda>fd. dimension_keys dimensions (snd fd)) FK_DIMENSIONS of
        Inl e \<Rightarrow> Inl e
      | Inr keys \<Rightarrow>
          Inr ([(''fact_id'', \<lparr>ctype = StrType, nullable = False, unique = False, isin = None\<rparr>)]
               @ map2 fk_column (map fst FK_DIMENSIONS) keys
               @ map metric_column METRIC_COLUMNS
               @ [(''ingested_at'', \<lparr>ctype = AnyType, nullable = False, unique = False, isin = None\<rparr>)]))"

text \<open>
  \<open>DataValidator.validate_dimensions\<close>: the tables of the dict in order; the first
  \<open>SchemaError\<close> is printed and raised again.
\<close>

definition validate_dimensions :: "'n tables \<Rightarrow> error + 'n tables" where
  "validate_dimensions dimensions =
     map_err (\<lambda>nd. case validate_schema dimension_schema (snd nd) of
                      Inl e \<Rightarrow> Inl e
                    | Inr df \<Rightarrow> Inr (fst nd, df)) dimensions"

definition validate_fact :: "'n tables \<Rightarrow> 'n frame \<Rightarrow> error + 'n frame" where
  "validate_fact dimensions facts =
     (case fact_schema dimensions of
        Inl e \<Rightarrow> Inl e
      | Inr schema \<Rightarrow> validate_schema schema facts)"

definition validate_all :: "'n tables \<Rightarrow> 'n frame \<Rightarrow> error + bool" where
  "validate_all dimensions facts =
     (case validate_dimensions dimensions of
        Inl e \<Rightarrow> Inl e
      | Inr _ \<Rightarrow>
          (case validate_fact dimensions facts of
             Inl e \<Rightarrow> Inl e
           | Inr _ \<Rightarrow> Inr True))"

section \<open>The validation rules, stated on the tables\<close>

definition is_text :: "'n cell \<Rightarrow> bool" where
  "is_text c \<longleftrightarrow> (case c of Str s \<Rightarrow> True | _ \<Rightarrow> False)"

definition is_number :: "'n cell \<Rightarrow> bool" where
  "is_number c \<longleftrightarrow> (case c of Num n \<Rightarrow> True | _ \<Rightarrow> False)"

text \<open>The column exists and every cell of it satisfies \<open>P\<close>.\<close>

definition column_all :: "('n cell \<Rightarrow> bool) \<Rightarrow> 'n frame \<Rightarrow> string \<Rightarrow> bool" where
  "column_all P df c \<longleftrightarrow> (case map_of (cols df) c of None \<Rightarrow> False | Some v \<Rightarrow> list_all P v)"

definition column_distinct :: "'n frame \<Rightarrow> string \<Rightarrow> bool" where
  "column_distinct df c \<longleftrightarrow> (case map_of (cols df) c of None \<Rightarrow> False | Some v \<Rightarrow> distinct v)"

text \<open>
  The rules as the code enforces them: the four columns of a dimension exist, \<open>key\<close> and
  \<open>title\<close> hold texts, \<open>description\<close> texts or nulls, \<open>ingested_at\<close> no null, and the
  keys are pairwise different.
\<close>

definition dimension_valid :: "'n frame \<Rightarrow> bool" where
  "dimension_valid df \<longleftrightarrow>
     column_all is_text df ''key'' \<and> column_distinct df ''key'' \<and>
     column_all is_text df ''title'' \<and>
     column_all (\<lambda>x. is_text x \<or> isnull x) df ''description'' \<and>
     column_all (\<lambda>x. \<not> isnull x) df ''ingested_at''"

text \<open>
  A foreign-key column exists, its dimension table exists and has a \<open>key\<close> column, and
  every cell is a text found in that column.
\<close>

definition fk_valid :: "'n tables \<Rightarrow> 'n frame \<Rightarrow> string \<times> string \<Rightarrow> bool" where
  "fk_valid dimensions facts fd \<longleftrightarrow>
     (case map_of dimensions (snd fd) of
        None \<Rightarrow> False
      | Some dim \<Rightarrow>
          (case map_of (cols dim) ''key'' of
             None \<Rightarrow> False
           | Some keys \<Rightarrow> column_all (\<lambda>x. is_text x \<and> x \<in> set keys) facts (fst fd)))"

definition fact_valid :: "'n tables \<Rightarrow> 'n frame \<Rightarrow> bool" where
  "fact_valid dimensions facts \<longleftrightarrow>
     column_all is_text facts ''fact_id'' \<and>
     list_all (fk_valid dimensions facts) FK_DIMENSIONS \<and>
     list_all (column_all (\<lambda>x. is_number x \<or> isnull x) facts) METRIC_COLUMNS \<and>
     column_all (\<lambda>x. \<not> isnull x) facts ''ingested_at''"




section \<open>MetadataParser\<close>

text \<open>
  \<open>s.find(pat)\<close>: the least index at which \<open>pat\<close> occurs in \<open>s\<close>, or \<open>-1\<close>.
\<close>

fun find_from :: "string \<Rightarrow> string \<Rightarrow> nat \<Rightarrow> int" where
  "find_from pat [] k = (if pat = [] then int k else - 1)"
| "find_from pat (c # cs) k =
     (if take (length pat) (c # cs) = pat then int k else find_from pat cs (Suc k))"

definition py_find :: "string \<Rightarrow> string \<Rightarrow> int" where
  "py_find s pat = find_from pat s 0"

text \<open>
  \<open>s[a:b]\<close>: a negative bound counts from the end, and both are clipped to the string.
\<close>

definition clip_index :: "nat \<Rightarrow> int \<Rightarrow> nat" where
  "clip_index n a = (if a < 0 then nat (max (a + int n) 0) else min (nat a) n)"

definition py_slice :: "string \<Rightarrow> int \<Rightarrow> int \<Rightarrow> string" where
  "py_slice s a b =
     (let lo = clip_index (length s) a; hi = clip_index (length s) b
      in take (hi - lo) (drop lo s))"

text \<open>The byte-order mark \<open>U+FEFF\<close>, as its three UTF-8 bytes.\<close>

definition BOM :: string where
  "BOM = [char_of (239 :: nat), char_of (187 :: nat), char_of (191 :: nat)]"

definition QUOTE :: char where
  "QUOTE = CHR 0x22"

definition NEWLINE :: char where
  "NEWLINE = CHR 0x0A"

text \<open>
  One attempt of the pattern \<^verbatim>\<open>^\s*\ufeff?"([^"]+)"\s*$\<close> (multi-line mode) at the
  beginning of \<open>s\<close>: the captured name and the number of characters matched.  Every
  quantifier is greedy and, by the shape of the pattern, the blanks, the mark and the name
  have one possible extent each; only the trailing blanks can be given back, down to the
  last line feed among them, for \<open>$\<close> to hold (at the end of the text, or before a line
  feed).
\<close>

definition match_header :: "string \<Rightarrow> (string \<times> nat) option" where
  "match_header s =
     (let w1 = takeWhile is_space s;
          s1 = dropWhile is_space s;
          b = (if take 3 s1 = BOM then 3 else 0);
          s2 = drop b s1
      in case s2 of
           [] \<Rightarrow> None
         | q # s3 \<Rightarrow>
             if q \<noteq> QUOTE then None
             else
               let name = takeWhile (\<lambda>c. c \<noteq> QUOTE) s3;
                   s4 = dropWhile (\<lambda>c. c \<noteq> QUOTE) s3
               in if name = [] \<or> s4 = [] then None
                  else
                    let s5 = tl s4;
                        w2 = takeWhile is_space s5;
                        lead = length w1 + b + 1 + length name + 1
                    in if dropWhile is_space s5 = [] then Some (name, lead + length w2)
                       else if NEWLINE \<in> set w2
                       then Some (name, lead + (length w2 - 1
                                    - length (takeWhile (\<lambda>c. c \<noteq> NEWLINE) (rev w2))))
                       else None)"

text \<open>\<open>^\<close> in multi-line mode: the start of the text, or just after a line feed.\<close>

definition line_start :: "string \<Rightarrow> nat \<Rightarrow> bool" where
  "line_start content p \<longleftrightarrow> p = 0 \<or> content ! (p - 1) = NEWLINE"

text \<open>
  \<open>re.findall\<close>: the matches from left to right, each search resuming where the previous
  match ended (one further when a match is empty).
\<close>

function find_sections_from :: "string \<Rightarrow> nat \<Rightarrow> string list" where
  "find_sections_from content p =
     (if length content \<le> p then []
      else if line_start content p
      then (case match_header (drop p content) of
              Some (name, n) \<Rightarrow> name # find_sections_from content (p + max n 1)
            | None \<Rightarrow> find_sections_from content (Suc p))
      else find_sections_from content (Suc p))"
  by pat_completeness auto
termination
  by (relation "measure (\<lambda>(content, p). length content - p)") auto

definition find_sections :: "string \<Rightarrow> string list" where
  "find_sections content = find_sections_from content 0"

text \<open>\<open>d[k] = v\<close> on a dict: an existing key keeps its place.\<close>

definition dict_set :: "('k \<times> 'v) list \<Rightarrow> 'k \<Rightarrow> 'v \<Rightarrow> ('k \<times> 'v) list" where
  "dict_set d k v =
     (if k \<in> set (map fst d) then map (\<lambda>(k', v'). if k' = k then (k', v) else (k', v')) d
      else d @ [(k, v)])"

definition full_marker :: "string \<Rightarrow> string" where
  "full_marker marker = [QUOTE] @ marker @ [QUOTE]"

text \<open>
  The text handed to \<open>pd.read_csv\<close> for the \<open>i\<close>-th header, or nothing when
  \<open>start == -1\<close> and the loop continues.
\<close>

definition section_block :: "string \<Rightarrow> string list \<Rightarrow> nat \<Rightarrow> string option" where
  "section_block content sections i =
     (let start = py_find content (full_marker (sections ! i) @ [NEWLINE])
      in if start = - 1 then None
         else
           let end = (if i + 1 < length sections
                      then py_find content (full_marker (sections ! (i + 1)) @ [NEWLINE])
                      else int (length content))
           in Some (py_strip (py_slice content start end)))"

text \<open>
  One round of the loop of \<open>parse\<close>.  The state is the dict \<open>self.dataframes\<close> and what
  has been printed: the name of each section whose reading raised, with the exception.
\<close>

type_synonym 'n parsed = "'n tables \<times> (string \<times> error) list"

definition parse_section :: "'n runtime \<Rightarrow> string \<Rightarrow> string \<Rightarrow> string list \<Rightarrow> 'n parsed \<Rightarrow> nat \<Rightarrow> 'n parsed" where
  "parse_section R sep content sections st i =
     (case section_block content sections i of
        None \<Rightarrow> st
      | Some block_text \<Rightarrow>
          (case read_csv R block_text sep 1 QUOTE of
             Inr df \<Rightarrow> (dict_set (fst st) (sections ! i) df, snd st)
           | Inl e \<Rightarrow> (fst st, snd st @ [(sections ! i, e)])))"

definition parse_content :: "'n runtime \<Rightarrow> string \<Rightarrow> string \<Rightarrow> 'n parsed" where
  "parse_content R sep content =
     (let sections = find_sections content
      in foldl (parse_section R sep content sections) ([], []) [0..<length sections])"

text \<open>
  \<open>MetadataParser(filepath, separator).parse()\<close>; the file is its text, or is missing.
\<close>

definition parse :: "'n runtime \<Rightarrow> string \<Rightarrow> string option \<Rightarrow> error + 'n parsed" where
  "parse R sep file =
     (case file of
        None \<Rightarrow> Inl FileNotFoundError
      | Some content \<Rightarrow> Inr (parse_content R sep content))"

section \<open>A small reader of delimited text\<close>

text \<open>
  A reader for the worked examples: lines are split at line feeds, fields at the
  separator outside quotes, the first line left after the skipped ones names the
  columns, a row with more fields than names is an error, as is a text without a line.
  An empty field is missing; no field is converted to a number.  The theorems below hold
  for every reader; only the examples use this one.
\<close>

fun split_on :: "char \<Rightarrow> string \<Rightarrow> string \<Rightarrow> string list" where
  "split_on d acc [] = [rev acc]"
| "split_on d acc (c # cs) = (if c = d then rev acc # split_on d [] cs else split_on d (c # acc) cs)"

fun split_fields :: "char \<Rightarrow> char \<Rightarrow> bool \<Rightarrow> string \<Rightarrow> string \<Rightarrow> string list" where
  "split_fields d q inq acc [] = [rev acc]"
| "split_fields d q inq acc (c # cs) =
     (if c = q then split_fields d q (\<not> inq) acc cs
      else if c = d \<and> \<not> inq then rev acc # split_fields d q False [] cs
      else split_fields d q inq (c # acc) cs)"

definition field_cell :: "string list \<Rightarrow> nat \<Rightarrow> 'n cell" where
  "field_cell r j = (if j < length r \<and> r ! j \<noteq> [] then Str (r ! j) else NaN)"

definition simple_read_csv :: "string \<Rightarrow> string \<Rightarrow> nat \<Rightarrow> char \<Rightarrow> error + 'n frame" where
  "simple_read_csv text sep skiprows quotechar =
     (case (filter (\<lambda>l. l \<noteq> []) (drop skiprows (split_on NEWLINE [] text)), sep) of
        ([], _) \<Rightarrow> Inl (ReadError ''EmptyDataError'')
      | (_, []) \<Rightarrow> Inl (ReadError ''ValueError'')
      | (h # rows, d # _) \<Rightarrow>
          (let names = split_fields d quotechar False [] h;
               recs = map (split_fields d quotechar False []) rows
           in if list_ex (\<lambda>r. length names < length r) recs then Inl (ReadError ''ParserError'')
              else Inr \<lparr>nrows = length recs,
                        cols = map (\<lambda>j. (names ! j, map (\<lambda>r. field_cell r j) recs)) [0..<length names]\<rparr>))"

section \<open>Notions used in the proofs\<close>

text \<open>Two frames with the same index that agree on a set of labels.\<close>

definition agree_on :: "string set \<Rightarrow> 'n frame \<Rightarrow> 'n frame \<Rightarrow> bool" where
  "agree_on S a b \<longleftrightarrow> nrows a = nrows b \<and> (\<forall>c \<in> S. map_of (cols a) c = map_of (cols b) c)"

text \<open>Two runs that raise the same exception, or both return, with related results.\<close>

definition same_outcome :: "('a \<Rightarrow> 'a \<Rightarrow> bool) \<Rightarrow> error + 'a \<Rightarrow> error + 'a \<Rightarrow> bool" where
  "same_outcome P x y \<longleftrightarrow>
     (\<exists>e. x = Inl e \<and> y = Inl e) \<or> (\<exists>a b. x = Inr a \<and> y = Inr b \<and> P a b)"


text \<open>A column of a schema is in the frame and passes its checks.\<close>

definition column_passes :: "'n frame \<Rightarrow> string \<times> 'n column_spec \<Rightarrow> bool" where
  "column_passes df cs \<longleftrightarrow>
     (case map_of (cols df) (fst cs) of
        None \<Rightarrow> False
      | Some v \<Rightarrow> check_column (fst cs) (snd cs) v = Inr ())"

section \<open>Loaders (PostgreSQL upsert)\<close>

text \<open>
  The statement that \<open>_build_upsert_query\<close> renders as
  \<open>INSERT INTO t (columns) VALUES (:columns) ON CONFLICT (k) DO UPDATE SET u = EXCLUDED.u\<close>,
  kept as its parts.
\<close>

record upsert_query =
  table_name :: string
  query_columns :: "string list"
  conflict_column :: string
  update_columns :: "string list"

definition build_upsert_query ::
  "string \<Rightarrow> string \<Rightarrow> string list \<Rightarrow> string \<Rightarrow> string list option \<Rightarrow> upsert_query" where
  "build_upsert_query sch table column_names conflict updates =
     \<lparr>table_name = (if sch \<noteq> [] then sch @ ''.'' else []) @ table,
      query_columns = column_names,
      conflict_column = conflict,
      update_columns = (case updates of
                          None \<Rightarrow> filter (\<lambda>c. c \<noteq> conflict) column_names
                        | Some u \<Rightarrow> u)\<rparr>"

text \<open>A row, in a table of the database or a record of \<open>df.to_dict(orient="records")\<close>.\<close>

type_synonym 'n row = "(string \<times> 'n cell) list"

text \<open>The database: the rows of each table, by qualified name.\<close>

type_synonym 'n database = "(string \<times> 'n row list) list"

definition to_records :: "'n frame \<Rightarrow> 'n row list" where
  "to_records df = map (\<lambda>i. map (\<lambda>(c, v). (c, v ! i)) (cols df)) [0..<nrows df]"

text \<open>
  Binding the parameters \<open>:c\<close> of the statement to one record: a record without one of
  the columns is an error; keys of the record that the statement does not name are
  ignored.
\<close>

definition bind_record :: "string list \<Rightarrow> 'n row \<Rightarrow> error + 'n row" where
  "bind_record column_names r =
     map_err (\<lambda>c. case map_of r c of None \<Rightarrow> Inl (StatementError c) | Some v \<Rightarrow> Inr (c, v)) column_names"

text \<open>
  \<open>DO UPDATE SET u = EXCLUDED.u\<close> on the existing row: the update columns take the
  proposed values, every other column keeps its own.
\<close>

definition merge_row :: "string list \<Rightarrow> 'n row \<Rightarrow> 'n row \<Rightarrow> 'n row" where
  "merge_row updates old new =
     map (\<lambda>(c, v). (c, if c \<in> set updates then (case map_of new c of None \<Rightarrow> v | Some v' \<Rightarrow> v') else v)) old"

text \<open>
  One insertion with its conflict clause: a row that has the same value in the conflict
  column is updated, otherwise the proposed row is added.  (Keys are never null here:
  validation has rejected them.)
\<close>

definition upsert_row :: "upsert_query \<Rightarrow> 'n row list \<Rightarrow> 'n row \<Rightarrow> 'n row list" where
  "upsert_row q rows new =
     (if list_ex (\<lambda>r. map_of r (conflict_column q) = map_of new (conflict_column q)) rows
      then map (\<lambda>r. if map_of r (conflict_column q) = map_of new (conflict_column q)
                      then merge_row (update_columns q) r new else r) rows
      else rows @ [new])"

text \<open>
  \<open>with engine.begin() as conn: conn.execute(text(query), records)\<close>: one transaction for
  the table; an error leaves the database as it was.  The table is assumed to exist in
  the sense that a statement on a missing table is an error.
\<close>

definition execute :: "upsert_query \<Rightarrow> 'n row list \<Rightarrow> 'n database \<Rightarrow> error + 'n database" where
  "execute q records db =
     (case map_of db (table_name q) of
        None \<Rightarrow> Inl (StatementError (table_name q))
      | Some rows \<Rightarrow>
          (case map_err (bind_record (query_columns q)) records of
             Inl e \<Rightarrow> Inl e
           | Inr news \<Rightarrow> Inr (dict_set db (table_name q) (foldl (upsert_row q) rows news))))"

definition TABLE_MAPPING :: "(string \<times> string) list" where
  "TABLE_MAPPING =
     [(''Population'', ''dim_population''),
      (''TravelMotives'', ''dim_travel_motives''),
      (''TravelModes'', ''dim_travel_modes''),
      (''Margins'', ''dim_margins''),
      (''RegionCharacteristics'', ''dim_regions''),
      (''Periods'', ''dim_periods'')]"

definition DIMENSION_COLUMNS :: "string list" where
  "DIMENSION_COLUMNS = [''key'', ''title'', ''description'', ''ingested_at'']"

definition dimension_query :: "string \<Rightarrow> string \<Rightarrow> upsert_query" where
  "dimension_query sch table =
     build_upsert_query sch table DIMENSION_COLUMNS ''key''
       (Some [''title'', ''description'', ''ingested_at''])"

text \<open>\<open>DimensionsLoader._upsert_table\<close>: the number of records, and the new database.\<close>

definition upsert_table :: "string \<Rightarrow> 'n frame \<Rightarrow> string \<Rightarrow> 'n database \<Rightarrow> error + nat \<times> 'n database" where
  "upsert_table sch df table db =
     (case execute (dimension_query sch table) (to_records df) db of
        Inl e \<Rightarrow> Inl e
      | Inr db' \<Rightarrow> Inr (length (to_records df), db'))"

text \<open>
  \<open>DimensionsLoader.load\<close>: the tables in the order of the dict, each in its own
  transaction; names outside \<open>TABLE_MAPPING\<close> are skipped.  When a table fails the
  exception propagates and the tables written before it stay written, so the database
  is returned in both cases.
\<close>

fun load_dimensions ::
  "string \<Rightarrow> 'n tables \<Rightarrow> (string \<times> nat) list \<Rightarrow> 'n database \<Rightarrow> (error + (string \<times> nat) list) \<times> 'n database" where
  "load_dimensions sch [] results db = (Inr results, db)"
| "load_dimensions sch ((source_name, df) # rest) results db =
     (case map_of TABLE_MAPPING source_name of
        None \<Rightarrow> load_dimensions sch rest results db
      | Some table \<Rightarrow>
          (case upsert_table sch df table db of
             Inl e \<Rightarrow> (Inl e, db)
           | Inr (n, db') \<Rightarrow> load_dimensions sch rest (dict_set results table n) db'))"

definition FACT_TABLE_NAME :: string where
  "FACT_TABLE_NAME = ''fact_mobility''"

definition LOADER_FACT_COLUMNS :: "string list" where
  "LOADER_FACT_COLUMNS =
     [''fact_id'',
      ''travel_motive_key'', ''population_key'', ''travel_mode_key'',
      ''margin_key'', ''region_key'', ''period_key'',
      ''trips_daily'', ''distance_daily'', ''time_daily'',
      ''trips_yearly'', ''distance_yearly'', ''time_yearly'',
      ''ingested_at'']"

text \<open>\<open>FactLoader.METRIC_COLUMNS\<close>, which ends with the audit column.\<close>

definition LOADER_METRIC_COLUMNS :: "string list" where
  "LOADER_METRIC_COLUMNS =
     [''trips_daily'', ''distance_daily'', ''time_daily'',
      ''trips_yearly'', ''distance_yearly'', ''time_yearly'',
      ''ingested_at'']"

definition fact_query :: "string \<Rightarrow> upsert_query" where
  "fact_query sch =
     build_upsert_query sch FACT_TABLE_NAME LOADER_FACT_COLUMNS ''fact_id''
       (Some LOADER_METRIC_COLUMNS)"

definition load_facts :: "string \<Rightarrow> 'n frame \<Rightarrow> 'n database \<Rightarrow> error + nat \<times> 'n database" where
  "load_facts sch df db =
     (case execute (fact_query sch) (to_records df) db of
        Inl e \<Rightarrow> Inl e
      | Inr db' \<Rightarrow> Inr (length (to_records df), db'))"

section \<open>ETLPipeline\<close>

definition DIMENSION_NAMES :: "string list" where
  "DIMENSION_NAMES =
     [''TravelMotives'', ''Population'', ''TravelModes'', ''Margins'',
      ''RegionCharacteristics'', ''Periods'']"

text \<open>
  What the run reads: the two files (their text, or nothing when the file is missing),
  the separator of \<open>SourceConfig\<close>, the schema of \<open>DatabaseConfig\<close>, and the clock
  (\<open>pd.Timestamp.now\<close>) at the moment each transformer stamps its table.
\<close>

record environment =
  metadata_file :: "string option"
  data_file :: "string option"
  SEPARATOR :: string
  SCHEMA :: string
  clock :: "string \<Rightarrow> nat"

record etl_result =
  dimensions_loaded :: "(string \<times> nat) list"
  facts_loaded :: nat

definition total_dimensions :: "etl_result \<Rightarrow> nat" where
  "total_dimensions r = sum_list (map snd (dimensions_loaded r))"

text \<open>\<open>DataSource.read\<close>: \<open>pd.read_csv(DATA_PATH, sep=SEPARATOR)\<close>.\<close>

definition datasource_read :: "'n runtime \<Rightarrow> environment \<Rightarrow> error + 'n frame" where
  "datasource_read R env =
     (case data_file env of
        None \<Rightarrow> Inl FileNotFoundError
      | Some content \<Rightarrow> read_csv R content (SEPARATOR env) 0 QUOTE)"

text \<open>
  \<open>extract\<close>: the parser is built with its default separator, a semicolon; the reader of
  the main dataset takes the configured one.
\<close>

definition etl_extract :: "'n runtime \<Rightarrow> environment \<Rightarrow> error + 'n tables \<times> 'n frame" where
  "etl_extract R env =
     (case parse R '';'' (metadata_file env) of
        Inl e \<Rightarrow> Inl e
      | Inr parsed \<Rightarrow>
          (case datasource_read R env of
             Inl e \<Rightarrow> Inl e
           | Inr raw_facts \<Rightarrow> Inr (fst parsed, raw_facts)))"

text \<open>The loop of \<open>transform\<close> over the raw dimensions: other sections are skipped.\<close>

fun transform_dimensions :: "'n runtime \<Rightarrow> (string \<Rightarrow> nat) \<Rightarrow> 'n tables \<Rightarrow> 'n tables \<Rightarrow> 'n tables" where
  "transform_dimensions R clk [] transformed = transformed"
| "transform_dimensions R clk ((name, df) # rest) transformed =
     (if name \<notin> set DIMENSION_NAMES then transform_dimensions R clk rest transformed
      else transform_dimensions R clk rest (dict_set transformed name (dim_transform R (clk name) df)))"

definition etl_transform :: "'n runtime \<Rightarrow> environment \<Rightarrow> 'n tables \<times> 'n frame \<Rightarrow> error + 'n tables \<times> 'n frame" where
  "etl_transform R env raw =
     (let transformed_dimensions = transform_dimensions R (clock env) (fst raw) []
      in case fact_transform R (clock env FACT_TABLE_NAME) (snd raw) of
           Inl e \<Rightarrow> Inl e
         | Inr transformed_facts \<Rightarrow> Inr (transformed_dimensions, transformed_facts))"

definition etl_validate :: "'n tables \<times> 'n frame \<Rightarrow> error + 'n tables \<times> 'n frame" where
  "etl_validate transformed =
     (case validate_all (fst transformed) (snd transformed) of
        Inl e \<Rightarrow> Inl e
      | Inr _ \<Rightarrow> Inr transformed)"

text \<open>\<open>load\<close>: the dimensions, then the facts; the database is returned in every case.\<close>

definition etl_load ::
  "environment \<Rightarrow> 'n tables \<times> 'n frame \<Rightarrow> 'n database \<Rightarrow> (error + etl_result) \<times> 'n database" where
  "etl_load env transformed db =
     (case load_dimensions (SCHEMA env) (fst transformed) [] db of
        (Inl e, db1) \<Rightarrow> (Inl e, db1)
      | (Inr dim_results, db1) \<Rightarrow>
          (case load_facts (SCHEMA env) (snd transformed) db1 of
             Inl e \<Rightarrow> (Inl e, db1)
           | Inr (fact_count, db2) \<Rightarrow>
               (Inr \<lparr>dimensions_loaded = dim_results, facts_loaded = fact_count\<rparr>, db2)))"

text \<open>The stages, as the log lines \<open>[EXTRACT]\<close>, \<open>[TRANSFORM]\<close>, \<open>[VALIDATE]\<close>, \<open>[LOAD]\<close> announce them.\<close>

datatype stage = Extract | Transform | Validate | Load

text \<open>
  \<open>ETLPipeline.run\<close>: \<open>self.extract().transform().validate().load()\<close>.  The outcome is the
  result or the exception that ended the run, the database after the run, and the stages
  entered, in order.
\<close>

record 'n run_outcome =
  outcome :: "error + etl_result"
  database :: "'n database"
  stages :: "stage list"

definition etl_run :: "'n runtime \<Rightarrow> environment \<Rightarrow> 'n database \<Rightarrow> 'n run_outcome" where
  "etl_run R env db =
     (case etl_extract R env of
        Inl e \<Rightarrow> \<lparr>outcome = Inl e, database = db, stages = [Extract]\<rparr>
      | Inr raw \<Rightarrow>
          (case etl_transform R env raw of
             Inl e \<Rightarrow> \<lparr>outcome = Inl e, database = db, stages = [Extract, Transform]\<rparr>
           | Inr transformed \<Rightarrow>
               (case etl_validate transformed of
                  Inl e \<Rightarrow> \<lparr>outcome = Inl e, database = db, stages = [Extract, Transform, Validate]\<rparr>
                | Inr validated \<Rightarrow>
                    (case etl_load env validated db of
                       (res, db') \<Rightarrow>
                         \<lparr>outcome = res, database = db', stages = [Extract, Transform, Validate, Load]\<rparr>))))"


section \<open>Notions used in the proofs about the parser\<close>

text \<open>
  What the reader returns for the \<open>i\<close>-th header, or nothing when the header is not
  located and the loop continues.
\<close>

definition section_result ::
  "'n runtime \<Rightarrow> string \<Rightarrow> string \<Rightarrow> string list \<Rightarrow> nat \<Rightarrow> (error + 'n frame) option" where
  "section_result R sep content sections i =
     map_option (\<lambda>block_text. read_csv R block_text sep 1 QUOTE) (section_block content sections i)"

text \<open>
  The sections that were read, and those whose reading raised, in the order of the
  headers.
\<close>

definition section_frames :: "'n runtime \<Rightarrow> string \<Rightarrow> string \<Rightarrow> 'n tables" where
  "section_frames R sep content =
     (let sections = find_sections content
      in concat (map (\<lambda>i. case section_result R sep content sections i of
                            Some (Inr df) \<Rightarrow> [(sections ! i, df)]
                          | _ \<Rightarrow> [])
                     [0..<length sections]))"

definition section_failures :: "'n runtime \<Rightarrow> string \<Rightarrow> string \<Rightarrow> (string \<times> error) list" where
  "section_failures R sep content =
     (let sections = find_sections content
      in concat (map (\<lambda>i. case section_result R sep content sections i of
                            Some (Inl e) \<Rightarrow> [(sections ! i, e)]
                          | _ \<Rightarrow> [])
                     [0..<length sections]))"

section \<open>Worked examples\<close>

definition example_runtime :: "string runtime" where
  "example_runtime = \<lparr>num_of = (\<lambda>s. s), num_str = (\<lambda>s. s), ts_str = (\<lambda>t. ''ts''),
     read_csv = simple_read_csv\<rparr>"

definition example_fact_raw :: "string frame" where
  "example_fact_raw = \<lparr>nrows = 1, cols =
     [(''ID'', [Num ''0'']),
      (''TravelMotives'', [Str ''  TM1 '']), (''Population'', [Str ''P1'']),
      (''TravelModes'', [Str ''M1'']), (''Margins'', [Str ''MG1'']),
      (''RegionCharacteristics'', [Str ''R1'']), (''Periods'', [Str ''2023JJ00'']),
      (''Trips_1'', [Str ''.'']), (''DistanceTravelled_2'', [Num ''100.5'']),
      (''TimeTravelled_3'', [NaN]), (''Trips_4'', [Str ''3800'']),
      (''DistanceTravelled_5'', [Str ''n/a'']), (''TimeTravelled_6'', [Num ''10950.0''])]\<rparr>"

definition example_fact_canonical :: "string frame" where
  "example_fact_canonical = \<lparr>nrows = 1, cols =
     [(''fact_id'', [Str ''ba29aa5c52e9980ff10e8fb33a19ee84'']),
      (''travel_motive_key'', [Str ''TM1'']), (''population_key'', [Str ''P1'']),
      (''travel_mode_key'', [Str ''M1'']), (''margin_key'', [Str ''MG1'']),
      (''region_key'', [Str ''R1'']), (''period_key'', [Str ''2023JJ00'']),
      (''trips_daily'', [NoneV]), (''distance_daily'', [Num ''100.5'']),
      (''time_daily'', [NoneV]), (''trips_yearly'', [Num ''3800'']),
      (''distance_yearly'', [NoneV]), (''time_yearly'', [Num ''10950.0'']),
      (''ingested_at'', [Ts 7])]\<rparr>"





definition example_fact_cast :: "string frame" where
  "example_fact_cast = \<lparr>nrows = 1, cols =
     [(''ID'', [Num ''0'']),
      (''travel_motive_key'', [Str ''TM1'']), (''population_key'', [Str ''P1'']),
      (''travel_mode_key'', [Str ''M1'']), (''margin_key'', [Str ''MG1'']),
      (''region_key'', [Str ''R1'']), (''period_key'', [Str ''2023JJ00'']),
      (''trips_daily'', [NaN]), (''distance_daily'', [Num ''100.5'']),
      (''time_daily'', [NaN]), (''trips_yearly'', [Num ''3800'']),
      (''distance_yearly'', [NaN]), (''time_yearly'', [Num ''10950.0''])]\<rparr>"

definition example_dimension :: "string \<Rightarrow> string \<Rightarrow> string frame" where
  "example_dimension k t = \<lparr>nrows = 1, cols =
     [(''key'', [Str k]), (''title'', [Str t]), (''description'', [NoneV]),
      (''ingested_at'', [Ts 7])]\<rparr>"

definition example_dimensions :: "string tables" where
  "example_dimensions =
     [(''TravelMotives'', example_dimension ''TM1'' ''Work''),
      (''Population'', example_dimension ''P1'' ''Adults''),
      (''TravelModes'', example_dimension ''M1'' ''Car''),
      (''Margins'', example_dimension ''MG1'' ''Value''),
      (''RegionCharacteristics'', example_dimension ''R1'' ''North''),
      (''Periods'', example_dimension ''2023JJ00'' ''Year 2023'')]"



section \<open>A worked run of the pipeline\<close>

text \<open>
  The fact table of the database already holds the row of the example, under the same
  \<open>fact_id\<close>, with another motive key and other metrics.
\<close>

definition example_stored_fact :: "string row" where
  "example_stored_fact =
     [(''fact_id'', Str ''ba29aa5c52e9980ff10e8fb33a19ee84''),
      (''travel_motive_key'', Str ''OLD''), (''population_key'', Str ''P1''),
      (''travel_mode_key'', Str ''M1''), (''margin_key'', Str ''MG1''),
      (''region_key'', Str ''R1''), (''period_key'', Str ''2023JJ00''),
      (''trips_daily'', Num ''1''), (''distance_daily'', Num ''2''),
      (''time_daily'', Num ''3''), (''trips_yearly'', Num ''4''),
      (''distance_yearly'', Num ''5''), (''time_yearly'', Num ''6''),
      (''ingested_at'', Ts 1)]"

definition example_database :: "string database" where
  "example_database =
     [(''odin.dim_population'', []), (''odin.dim_travel_motives'', []),
      (''odin.dim_travel_modes'', []), (''odin.dim_margins'', []),
      (''odin.dim_regions'', []), (''odin.dim_periods'', []),
      (''odin.fact_mobility'', [example_stored_fact])]"

text \<open>The metadata file (six sections) and the data file, as texts.\<close>

definition text_of_lines :: "string list \<Rightarrow> string" where
  "text_of_lines ls = concat (map (\<lambda>l. l @ [NEWLINE]) ls)"

definition example_section :: "string \<Rightarrow> string \<Rightarrow> string list" where
  "example_section name row = [full_marker name, ''Key;Title;Description'', row, []]"

definition example_metadata :: string where
  "example_metadata = text_of_lines
     (example_section ''TravelMotives'' ''TM1;Work;'' @
      example_section ''Population'' ''P1;Adults;'' @
      example_section ''TravelModes'' ''M1;Car;'' @
      example_section ''Margins'' ''MG1;Value;'' @
      example_section ''RegionCharacteristics'' ''R1;North;'' @
      example_section ''Periods'' ''2023JJ00;Year 2023;'')"

definition example_data_header :: string where
  "example_data_header =
     ''ID;TravelMotives;Population;TravelModes;Margins;RegionCharacteristics;Periods;'' @
     ''Trips_1;DistanceTravelled_2;TimeTravelled_3;Trips_4;DistanceTravelled_5;TimeTravelled_6''"

definition example_environment :: environment where
  "example_environment =
     \<lparr>metadata_file = Some example_metadata,
      data_file = Some (text_of_lines
        [example_data_header, ''0;  TM1 ;P1;M1;MG1;R1;2023JJ00;.;100.5;;3800;n/a;10950.0'']),
      SEPARATOR = '';'', SCHEMA = ''odin'', clock = (\<lambda>table. 7)\<rparr>"

definition example_environment_unknown_key :: environment where
  "example_environment_unknown_key =
     example_environment\<lparr>data_file := Some (text_of_lines
        [example_data_header, ''0;TM9;P1;M1;MG1;R1;2023JJ00;.;100.5;;3800;n/a;10950.0''])\<rparr>"

text \<open>The stored row once the canonical fact table is loaded, and the database after the whole run.\<close>

definition example_loaded_fact :: "string row" where
  "example_loaded_fact =
     [(''fact_id'', Str ''ba29aa5c52e9980ff10e8fb33a19ee84''),
      (''travel_motive_key'', Str ''OLD''), (''population_key'', Str ''P1''),
      (''travel_mode_key'', Str ''M1''), (''margin_key'', Str ''MG1''),
      (''region_key'', Str ''R1''), (''period_key'', Str ''2023JJ00''),
      (''trips_daily'', NoneV), (''distance_daily'', Num ''100.5''),
      (''time_daily'', NoneV), (''trips_yearly'', Num ''3800''),
      (''distance_yearly'', NoneV), (''time_yearly'', Num ''10950.0''),
      (''ingested_at'', Ts 7)]"


definition example_stored_dimension :: "string \<Rightarrow> string \<Rightarrow> string row" where
  "example_stored_dimension k t =
     [(''key'', Str k), (''title'', Str t), (''description'', NoneV), (''ingested_at'', Ts 7)]"

definition example_database_final :: "string database" where
  "example_database_final =
     [(''odin.dim_population'', [example_stored_dimension ''P1'' ''Adults'']),
      (''odin.dim_travel_motives'', [example_stored_dimension ''TM1'' ''Work'']),
      (''odin.dim_travel_modes'', [example_stored_dimension ''M1'' ''Car'']),
      (''odin.dim_margins'', [example_stored_dimension ''MG1'' ''Value'']),
      (''odin.dim_regions'', [example_stored_dimension ''R1'' ''North'']),
      (''odin.dim_periods'', [example_stored_dimension ''2023JJ00'' ''Year 2023'']),
      (''odin.fact_mobility'', [example_loaded_fact])]"

definition example_result :: etl_result where
  "example_result =
     \<lparr>dimensions_loaded =
        [(''dim_travel_motives'', 1), (''dim_population'', 1), (''dim_travel_modes'', 1),
         (''dim_margins'', 1), (''dim_regions'', 1), (''dim_periods'', 1)],
      facts_loaded = 1\<rparr>"

text \<open>
  A metadata file of three sections; the row of the second one has a field too many.
\<close>

definition example_metadata_malformed :: string where
  "example_metadata_malformed = text_of_lines
     (example_section ''Population'' ''P1;Adults;'' @
      example_section ''TravelModes'' ''M1;Car;;extra'' @
      example_section ''Periods'' ''2023JJ00;Year 2023;'')"

definition example_raw_dimension :: "string \<Rightarrow> string \<Rightarrow> string frame" where
  "example_raw_dimension k t = \<lparr>nrows = 1, cols =
     [(''Key'', [Str k]), (''Title'', [Str t]), (''Description'', [NaN])]\<rparr>"

section \<open>Frames: basic facts\<close>

lemma map_of_replace_same:
  "map_of (map (\<lambda>(n, x). if n = c then (n, v) else (n, x)) xs) c =
     (if c \<in> set (map fst xs) then Some v else None)"
  by (induction xs) (simp_all add: case_prod_unfold)

lemma map_of_replace_other:
  "k \<noteq> c \<Longrightarrow> map_of (map (\<lambda>(n, x). if n = c then (n, v) else (n, x)) xs) k = map_of xs k"
  by (induction xs) (simp_all add: case_prod_unfold)

lemma map_of_replace_column:
  "map_of (map (\<lambda>(n, x). if n = c then (n, v) else (n, x)) xs) k =
     (if k = c then (if c \<in> set (map fst xs) then Some v else None) else map_of xs k)"
  using map_of_replace_same[of c v xs] map_of_replace_other[of k c v xs] by (cases "k = c") simp_all

lemma map_of_setitem: "map_of (cols (setitem df c v)) = (map_of (cols df))(c \<mapsto> v)"
proof (rule ext)
  fix k
  show "map_of (cols (setitem df c v)) k = ((map_of (cols df))(c \<mapsto> v)) k"
  proof (cases "c \<in> set (columns df)")
    case True
    then show ?thesis
      by (simp add: setitem_def map_of_replace_column columns_def)
  next
    case False
    then have "map_of (cols df) c = None"
      by (simp add: columns_def map_of_eq_None_iff)
    with False show ?thesis
      by (simp add: setitem_def map_add_def split: option.splits)
  qed
qed

lemma nrows_setitem: "nrows (setitem df c v) = nrows df"
  by (simp add: setitem_def)

lemma for_each_column_Inr:
  "for_each_column f cs df = Inr df' \<Longrightarrow>
     nrows df' = nrows df \<and> set cs \<subseteq> dom (map_of (cols df)) \<and>
     (\<forall>c. c \<notin> set cs \<longrightarrow> map_of (cols df') c = map_of (cols df) c) \<and>
     (distinct cs \<longrightarrow> (\<forall>c \<in> set cs. map_of (cols df') c = map_option f (map_of (cols df) c)))"
proof (induction cs arbitrary: df)
  case Nil
  then show ?case by simp
next
  case (Cons c cs)
  then obtain v where v: "map_of (cols df) c = Some v"
    and r: "for_each_column f cs (setitem df c (f v)) = Inr df'"
    by (auto simp: getitem_def split: option.splits)
  from Cons.IH[OF r] v show ?case
    by (auto simp: map_of_setitem nrows_setitem split: if_splits)
qed

lemma map_err_Inr:
  "map_err f xs = Inr ys \<Longrightarrow> length ys = length xs \<and> (\<forall>i < length xs. f (xs ! i) = Inr (ys ! i))"
proof (induction xs arbitrary: ys)
  case Nil
  then show ?case by simp
next
  case (Cons x xs)
  then show ?case
    by (auto split: sum.splits simp: nth_Cons split: nat.splits)
qed

lemma map_of_select_present:
  "map_of (cols (select_present names df)) c = (if c \<in> set names then map_of (cols df) c else None)"
proof -
  have "map_of (List.map_filter (\<lambda>c. map_option (Pair c) (m c)) ns) c =
        (if c \<in> set ns then m c else None)" for ns :: "string list" and m :: "string \<Rightarrow> 'a cell list option"
    by (induction ns) (auto simp: List.map_filter_simps split: option.splits)
  then show ?thesis by (simp add: select_present_def)
qed

lemma nrows_select_present: "nrows (select_present names df) = nrows df"
  by (simp add: select_present_def)

lemma map_of_map_cells: "map_of (cols (map_cells f df)) c = map_option (map f) (map_of (cols df) c)"
proof -
  have "map_of (map (\<lambda>(n, x). (n, map f x)) xs) c = map_option (map f) (map_of xs c)" for xs :: "(string \<times> 'a cell list) list"
    by (induction xs) auto
  then show ?thesis by (simp add: map_cells_def)
qed

lemma nrows_map_cells: "nrows (map_cells f df) = nrows df"
  by (simp add: map_cells_def)



lemma FK_METRIC_disjoint: "set FK_COLUMNS \<inter> set METRIC_COLUMNS = {}"
  by (simp add: FK_COLUMNS_def METRIC_COLUMNS_def)

lemma distinct_FK: "distinct FK_COLUMNS"
  by (simp add: FK_COLUMNS_def)

lemma distinct_METRIC: "distinct METRIC_COLUMNS"
  by (simp add: METRIC_COLUMNS_def)

lemma cast_types_Inr:
  assumes "cast_types R df = Inr df'"
  shows "nrows df' = nrows df"
    and "set FK_COLUMNS \<union> set METRIC_COLUMNS \<subseteq> dom (map_of (cols df))"
    and "\<And>c. map_of (cols df') c =
          (if c \<in> set FK_COLUMNS then map_option (map (str_strip R)) (map_of (cols df) c)
           else if c \<in> set METRIC_COLUMNS then map_option (map (to_numeric R)) (map_of (cols df) c)
           else map_of (cols df) c)"
proof -
  from assms obtain df1 where
    1: "for_each_column (map (str_strip R)) FK_COLUMNS df = Inr df1" and
    2: "for_each_column (map (to_numeric R)) METRIC_COLUMNS df1 = Inr df'"
    by (auto simp: cast_types_def split: sum.splits)
  note a = for_each_column_Inr[OF 1] and b = for_each_column_Inr[OF 2]
  show "nrows df' = nrows df" using a b by simp
  have m: "c \<in> set METRIC_COLUMNS \<Longrightarrow> c \<notin> set FK_COLUMNS" for c
    using FK_METRIC_disjoint by auto
  show "set FK_COLUMNS \<union> set METRIC_COLUMNS \<subseteq> dom (map_of (cols df))"
  proof -
    have "set METRIC_COLUMNS \<subseteq> dom (map_of (cols df))"
    proof
      fix c assume c: "c \<in> set METRIC_COLUMNS"
      with b have "c \<in> dom (map_of (cols df1))" by blast
      moreover from a m[OF c] have "map_of (cols df1) c = map_of (cols df) c" by blast
      ultimately show "c \<in> dom (map_of (cols df))" by (simp add: dom_def)
    qed
    with a show ?thesis by blast
  qed
  show "map_of (cols df') c =
          (if c \<in> set FK_COLUMNS then map_option (map (str_strip R)) (map_of (cols df) c)
           else if c \<in> set METRIC_COLUMNS then map_option (map (to_numeric R)) (map_of (cols df) c)
           else map_of (cols df) c)" for c
  proof (cases "c \<in> set FK_COLUMNS")
    case True
    then have "c \<notin> set METRIC_COLUMNS" using FK_METRIC_disjoint by auto
    with b have "map_of (cols df') c = map_of (cols df1) c" by blast
    with a True distinct_FK show ?thesis by simp
  next
    case False
    with a have e: "map_of (cols df1) c = map_of (cols df) c" by blast
    show ?thesis
    proof (cases "c \<in> set METRIC_COLUMNS")
      case True
      with b distinct_METRIC have "map_of (cols df') c = map_option (map (to_numeric R)) (map_of (cols df1) c)"
        by simp
      with e False True show ?thesis by simp
    next
      case F2: False
      with b have "map_of (cols df') c = map_of (cols df1) c" by blast
      with e False F2 show ?thesis by simp
    qed
  qed
qed

lemma fact_handle_nulls_Inr:
  assumes "fact_handle_nulls df = Inr df'"
  shows "nrows df' = nrows df"
    and "\<And>c. map_of (cols df') c =
          (if c \<in> set METRIC_COLUMNS then map_option (map (where_notnull \<circ> replace_dot)) (map_of (cols df) c)
           else map_option (map where_notnull) (map_of (cols df) c))"
proof -
  from assms obtain df1 where
    1: "for_each_column (map replace_dot) METRIC_COLUMNS df = Inr df1" and
    2: "df' = map_cells where_notnull df1"
    by (auto simp: fact_handle_nulls_def split: sum.splits)
  note a = for_each_column_Inr[OF 1]
  show "nrows df' = nrows df" using a 2 by (simp add: nrows_map_cells)
  show "map_of (cols df') c =
          (if c \<in> set METRIC_COLUMNS then map_option (map (where_notnull \<circ> replace_dot)) (map_of (cols df) c)
           else map_option (map where_notnull) (map_of (cols df) c))" for c
  proof (cases "c \<in> set METRIC_COLUMNS")
    case True
    with a distinct_METRIC have "map_of (cols df1) c = map_option (map replace_dot) (map_of (cols df) c)" by simp
    with True 2 show ?thesis by (simp add: map_of_map_cells option.map_comp)
  next
    case False
    with a have "map_of (cols df1) c = map_of (cols df) c" by blast
    with False 2 show ?thesis by (simp add: map_of_map_cells)
  qed
qed

lemma where_notnull_str_strip [simp]: "where_notnull (str_strip R x) = str_strip R x"
  by (simp add: where_notnull_def str_strip_def)

lemma cell_at_cong: "map_of (cols a) c = map_of (cols b) c \<Longrightarrow> cell_at a c i = cell_at b c i"
  by (simp add: cell_at_def)

lemma map_err_cong:
  "(\<And>x. x \<in> set xs \<Longrightarrow> f x = g x) \<Longrightarrow> map_err f xs = map_err g xs"
  by (induction xs) (simp_all split: sum.splits)

lemma hash_row_cong:
  assumes "\<And>c. c \<in> set FK_COLUMNS \<Longrightarrow> row c = row' c"
  shows "hash_row R row = hash_row R row'"
proof -
  have "map_err (row_get row) FK_COLUMNS = map_err (row_get row') FK_COLUMNS"
    by (rule map_err_cong) (simp add: row_get_def assms)
  then show ?thesis by (simp add: hash_row_def)
qed

lemma select_present_all:
  "set names \<subseteq> dom (map_of (cols df)) \<Longrightarrow>
     cols (select_present names df) = map (\<lambda>c. (c, the (map_of (cols df) c))) names"
proof -
  have "set ns \<subseteq> dom m \<Longrightarrow>
        List.map_filter (\<lambda>c. map_option (Pair c) (m c)) ns = map (\<lambda>c. (c, the (m c))) ns"
    for ns :: "string list" and m :: "string \<Rightarrow> 'a cell list option"
    by (induction ns) (auto simp: List.map_filter_simps)
  then show "set names \<subseteq> dom (map_of (cols df)) \<Longrightarrow> ?thesis"
    by (simp add: select_present_def)
qed

lemma fact_transform_unfold:
  "fact_transform R now df =
     (case cast_types R (fact_rename_columns df) of
        Inl e \<Rightarrow> Inl e
      | Inr df1 \<Rightarrow>
          (case fact_handle_nulls df1 of
             Inl e \<Rightarrow> Inl e
           | Inr df2 \<Rightarrow>
               (case compute_fact_id R df2 of
                  Inl e \<Rightarrow> Inl e
                | Inr df3 \<Rightarrow> Inr (reorder_columns (add_audit_columns now df3)))))"
  by (simp add: fact_transform_def FACT_TRANSFORM_CHAIN_def split: sum.splits)

lemma fact_transform_Inr:
  assumes t: "fact_transform R now df = Inr out"
  shows "nrows out = nrows df"
    and "\<And>c. c \<in> set FK_COLUMNS \<Longrightarrow>
           \<exists>v. map_of (cols (fact_rename_columns df)) c = Some v \<and>
               map_of (cols out) c = Some (map (str_strip R) v)"
    and "\<And>c. c \<in> set METRIC_COLUMNS \<Longrightarrow>
           \<exists>v. map_of (cols (fact_rename_columns df)) c = Some v \<and>
               map_of (cols out) c = Some (map (where_notnull \<circ> replace_dot \<circ> to_numeric R) v)"
    and "map_of (cols out) ''ingested_at'' = Some (replicate (nrows df) (Ts now))"
    and "\<exists>hs. map_of (cols out) ''fact_id'' = Some (map Str hs) \<and> length hs = nrows df \<and>
              (\<forall>i < nrows df. hash_row R (row_at out i) = Inr (hs ! i))"
    and "columns out = FACT_COLUMN_ORDER"
proof -
  let ?df0 = "fact_rename_columns df"
  from t obtain df1 df2 df3 where
    1: "cast_types R ?df0 = Inr df1" and
    2: "fact_handle_nulls df1 = Inr df2" and
    3: "compute_fact_id R df2 = Inr df3" and
    4: "out = reorder_columns (add_audit_columns now df3)"
    by (auto simp: fact_transform_unfold split: sum.splits)
  from 3 obtain hs where
    hs: "map_err (\<lambda>i. hash_row R (row_at df2 i)) [0..<nrows df2] = Inr hs" and
    df3: "df3 = setitem df2 ''fact_id'' (map Str hs)"
    by (auto simp: compute_fact_id_def split: sum.splits)
  note c1 = cast_types_Inr[OF 1] and h2 = fact_handle_nulls_Inr[OF 2]
  have n0: "nrows ?df0 = nrows df" by (simp add: fact_rename_columns_def rename_def)
  have n2: "nrows df2 = nrows df" using c1(1) h2(1) n0 by simp
  have n3: "nrows df3 = nrows df" using n2 df3 by (simp add: nrows_setitem)
  show n: "nrows out = nrows df"
    using 4 n3 by (simp add: reorder_columns_def nrows_select_present add_audit_columns_def nrows_setitem)
  have out: "map_of (cols out) c =
      (if c \<in> set FACT_COLUMN_ORDER
       then ((map_of (cols df2))(''fact_id'' \<mapsto> map Str hs, ''ingested_at'' \<mapsto> replicate (nrows df) (Ts now))) c
       else None)" for c
    using 4 df3 n3
    by (simp add: reorder_columns_def map_of_select_present add_audit_columns_def map_of_setitem)
  have fk_order: "c \<in> set FK_COLUMNS \<Longrightarrow>
      c \<in> set FACT_COLUMN_ORDER \<and> c \<noteq> ''fact_id'' \<and> c \<noteq> ''ingested_at'' \<and> c \<notin> set METRIC_COLUMNS" for c
    by (auto simp: FACT_COLUMN_ORDER_def FK_COLUMNS_def METRIC_COLUMNS_def)
  have m_order: "c \<in> set METRIC_COLUMNS \<Longrightarrow>
      c \<in> set FACT_COLUMN_ORDER \<and> c \<noteq> ''fact_id'' \<and> c \<noteq> ''ingested_at'' \<and> c \<notin> set FK_COLUMNS" for c
    by (auto simp: FACT_COLUMN_ORDER_def FK_COLUMNS_def METRIC_COLUMNS_def)
  show fk: "\<exists>v. map_of (cols ?df0) c = Some v \<and> map_of (cols out) c = Some (map (str_strip R) v)"
    if c: "c \<in> set FK_COLUMNS" for c
  proof -
    from c1(2) c obtain v where v: "map_of (cols ?df0) c = Some v" by blast
    have "map_of (cols out) c = map_of (cols df2) c" using out[of c] fk_order[OF c] by simp
    also have "\<dots> = map_option (map where_notnull) (map_of (cols df1) c)"
      using h2(2)[of c] fk_order[OF c] by simp
    also have "\<dots> = Some (map (str_strip R) v)"
      using c1(3)[of c] c v by simp
    finally show ?thesis using v by simp
  qed
  show "\<exists>v. map_of (cols ?df0) c = Some v \<and>
            map_of (cols out) c = Some (map (where_notnull \<circ> replace_dot \<circ> to_numeric R) v)"
    if c: "c \<in> set METRIC_COLUMNS" for c
  proof -
    from c1(2) c obtain v where v: "map_of (cols ?df0) c = Some v" by blast
    have "map_of (cols out) c = map_of (cols df2) c" using out[of c] m_order[OF c] by simp
    also have "\<dots> = map_option (map (where_notnull \<circ> replace_dot)) (map_of (cols df1) c)"
      using h2(2)[of c] c by simp
    also have "\<dots> = Some (map (where_notnull \<circ> replace_dot \<circ> to_numeric R) v)"
      using c1(3)[of c] m_order[OF c] c v by simp
    finally show ?thesis using v by simp
  qed
  show "map_of (cols out) ''ingested_at'' = Some (replicate (nrows df) (Ts now))"
    using out[of "''ingested_at''"] by (simp add: FACT_COLUMN_ORDER_def)
  have same: "row_at df2 i c = row_at out i c" if "c \<in> set FK_COLUMNS" for c i
    using out[of c] fk_order[OF that] by (simp add: row_at_def cell_at_def)
  show "\<exists>hs. map_of (cols out) ''fact_id'' = Some (map Str hs) \<and> length hs = nrows df \<and>
              (\<forall>i < nrows df. hash_row R (row_at out i) = Inr (hs ! i))"
  proof (intro exI[of _ hs] conjI allI impI)
    show "map_of (cols out) ''fact_id'' = Some (map Str hs)"
      using out[of "''fact_id''"] by (simp add: FACT_COLUMN_ORDER_def)
    from map_err_Inr[OF hs] n2 show "length hs = nrows df" by simp
    fix i assume i: "i < nrows df"
    with map_err_Inr[OF hs] n2 have "hash_row R (row_at df2 i) = Inr (hs ! i)" by simp
    moreover have "hash_row R (row_at df2 i) = hash_row R (row_at out i)"
      by (rule hash_row_cong) (rule same)
    ultimately show "hash_row R (row_at out i) = Inr (hs ! i)" by simp
  qed
  let ?pre = "add_audit_columns now df3"
  have pre: "map_of (cols ?pre) =
     (map_of (cols df2))(''fact_id'' \<mapsto> map Str hs, ''ingested_at'' \<mapsto> replicate (nrows df) (Ts now))"
    using df3 n3 by (simp add: add_audit_columns_def map_of_setitem)
  have "set FACT_COLUMN_ORDER \<subseteq> dom (map_of (cols ?pre))"
  proof
    fix c assume "c \<in> set FACT_COLUMN_ORDER"
    then consider "c = ''fact_id''" | "c = ''ingested_at''" | "c \<in> set FK_COLUMNS" | "c \<in> set METRIC_COLUMNS"
      by (auto simp: FACT_COLUMN_ORDER_def)
    then show "c \<in> dom (map_of (cols ?pre))"
    proof cases
      case 3
      from c1(2) 3 obtain v where "map_of (cols ?df0) c = Some v" by blast
      with c1(3)[of c] h2(2)[of c] 3 fk_order[OF 3] show ?thesis by (auto simp: pre)
    next
      case 4
      from c1(2) 4 obtain v where "map_of (cols ?df0) c = Some v" by blast
      with c1(3)[of c] h2(2)[of c] 4 m_order[OF 4] show ?thesis by (auto simp: pre)
    qed (simp_all add: pre)
  qed
  from select_present_all[OF this] show "columns out = FACT_COLUMN_ORDER"
    by (simp add: 4 reorder_columns_def columns_def comp_def)
qed







lemma example_fact_transform:
  "fact_transform example_runtime 7 example_fact_raw = Inr example_fact_canonical"
  by code_simp

section \<open>The fact pipeline depends on the key and metric columns only\<close>

lemma same_outcome_Inl [simp]: "same_outcome P (Inl e) y \<longleftrightarrow> y = Inl e"
  by (auto simp: same_outcome_def)

lemma same_outcome_Inr [simp]: "same_outcome P (Inr a) y \<longleftrightarrow> (\<exists>b. y = Inr b \<and> P a b)"
  by (auto simp: same_outcome_def)

lemma same_outcome_eq: "same_outcome (=) x y \<longleftrightarrow> x = y"
  by (cases x; cases y) (auto simp: same_outcome_def)

lemma for_each_column_outcome:
  "\<forall>c \<in> set cs. map_option f (map_of (cols a) c) = map_option f (map_of (cols b) c) \<Longrightarrow>
   same_outcome (\<lambda>_ _. True) (for_each_column f cs a) (for_each_column f cs b)"
proof (induction cs arbitrary: a b)
  case Nil
  then show ?case by simp
next
  case (Cons c cs)
  from Cons.prems have c: "map_option f (map_of (cols a) c) = map_option f (map_of (cols b) c)"
    by simp
  show ?case
  proof (cases "map_of (cols a) c")
    case None
    with c have "map_of (cols b) c = None" by simp
    with None show ?thesis by (simp add: getitem_def)
  next
    case (Some va)
    with c obtain vb where vb: "map_of (cols b) c = Some vb" "f va = f vb"
      by (cases "map_of (cols b) c") auto
    have "\<forall>c' \<in> set cs. map_option f (map_of (cols (setitem a c (f va))) c') =
                         map_option f (map_of (cols (setitem b c (f vb))) c')"
      using Cons.prems vb(2) by (simp add: map_of_setitem)
    from Cons.IH[OF this] Some vb show ?thesis by (simp add: getitem_def)
  qed
qed

lemma cast_types_outcome:
  assumes n: "nrows a = nrows b"
    and fk: "\<forall>c \<in> set FK_COLUMNS.
               map_option (map (str_strip R)) (map_of (cols a) c) =
               map_option (map (str_strip R)) (map_of (cols b) c)"
    and m: "\<forall>c \<in> set METRIC_COLUMNS. map_of (cols a) c = map_of (cols b) c"
  shows "same_outcome (agree_on (set FK_COLUMNS \<union> set METRIC_COLUMNS)) (cast_types R a) (cast_types R b)"
proof -
  let ?f = "map (str_strip R)" and ?g = "map (to_numeric R)"
  have disj: "c \<in> set METRIC_COLUMNS \<Longrightarrow> c \<notin> set FK_COLUMNS" for c
    using FK_METRIC_disjoint by auto
  from for_each_column_outcome[of FK_COLUMNS ?f a b] fk
  have 1: "same_outcome (\<lambda>_ _. True) (for_each_column ?f FK_COLUMNS a) (for_each_column ?f FK_COLUMNS b)"
    by simp
  show ?thesis
  proof (cases "for_each_column ?f FK_COLUMNS a")
    case (Inl e)
    with 1 show ?thesis by (simp add: cast_types_def)
  next
    case (Inr a1)
    with 1 obtain b1 where b1: "for_each_column ?f FK_COLUMNS b = Inr b1" by auto
    note A = for_each_column_Inr[OF Inr] and B = for_each_column_Inr[OF b1]
    have eq1: "map_of (cols a1) c = map_of (cols b1) c" if "c \<in> set FK_COLUMNS \<union> set METRIC_COLUMNS" for c
    proof (cases "c \<in> set FK_COLUMNS")
      case True
      with A B distinct_FK fk show ?thesis by simp
    next
      case False
      with that have "c \<in> set METRIC_COLUMNS" by simp
      with A B False m show ?thesis by simp
    qed
    then have "\<forall>c \<in> set METRIC_COLUMNS. map_option ?g (map_of (cols a1) c) = map_option ?g (map_of (cols b1) c)"
      by simp
    from for_each_column_outcome[OF this]
    have 2: "same_outcome (\<lambda>_ _. True) (for_each_column ?g METRIC_COLUMNS a1) (for_each_column ?g METRIC_COLUMNS b1)" .
    show ?thesis
    proof (cases "for_each_column ?g METRIC_COLUMNS a1")
      case (Inl e)
      with 2 Inr b1 show ?thesis by (simp add: cast_types_def)
    next
      case a2: (Inr a2)
      with 2 obtain b2 where b2: "for_each_column ?g METRIC_COLUMNS b1 = Inr b2" by auto
      note A2 = for_each_column_Inr[OF a2] and B2 = for_each_column_Inr[OF b2]
      have "map_of (cols a2) c = map_of (cols b2) c" if "c \<in> set FK_COLUMNS \<union> set METRIC_COLUMNS" for c
      proof (cases "c \<in> set METRIC_COLUMNS")
        case True
        with A2 B2 distinct_METRIC eq1[OF that] show ?thesis by simp
      next
        case False
        with A2 B2 eq1[OF that] show ?thesis by simp
      qed
      moreover have "nrows a2 = nrows b2" using A A2 B B2 n by simp
      ultimately show ?thesis
        using Inr b1 a2 b2 by (simp add: cast_types_def agree_on_def)
    qed
  qed
qed

lemma fact_handle_nulls_outcome:
  assumes "agree_on (set FK_COLUMNS \<union> set METRIC_COLUMNS) a b"
  shows "same_outcome (agree_on (set FK_COLUMNS \<union> set METRIC_COLUMNS))
           (fact_handle_nulls a) (fact_handle_nulls b)"
proof -
  let ?f = "map replace_dot"
  from assms have "\<forall>c \<in> set METRIC_COLUMNS. map_option ?f (map_of (cols a) c) = map_option ?f (map_of (cols b) c)"
    by (simp add: agree_on_def)
  from for_each_column_outcome[OF this]
  have 1: "same_outcome (\<lambda>_ _. True) (for_each_column ?f METRIC_COLUMNS a) (for_each_column ?f METRIC_COLUMNS b)" .
  show ?thesis
  proof (cases "fact_handle_nulls a")
    case (Inl e)
    with 1 show ?thesis by (auto simp: fact_handle_nulls_def split: sum.splits)
  next
    case (Inr a')
    with 1 obtain b' where b': "fact_handle_nulls b = Inr b'"
      by (auto simp: fact_handle_nulls_def split: sum.splits)
    note A = fact_handle_nulls_Inr[OF Inr] and B = fact_handle_nulls_Inr[OF b']
    have "agree_on (set FK_COLUMNS \<union> set METRIC_COLUMNS) a' b'"
      using assms by (auto simp: agree_on_def A B)
    with Inr b' show ?thesis by simp
  qed
qed

lemma compute_fact_id_outcome:
  assumes "agree_on (set FK_COLUMNS \<union> set METRIC_COLUMNS) a b"
  shows "same_outcome (agree_on (insert ''fact_id'' (set FK_COLUMNS \<union> set METRIC_COLUMNS)))
           (compute_fact_id R a) (compute_fact_id R b)"
proof -
  have "hash_row R (row_at a i) = hash_row R (row_at b i)" for i
    using assms by (intro hash_row_cong) (simp add: row_at_def cell_at_def agree_on_def)
  moreover have "nrows a = nrows b" using assms by (simp add: agree_on_def)
  ultimately have e: "map_err (\<lambda>i. hash_row R (row_at a i)) [0..<nrows a] =
                      map_err (\<lambda>i. hash_row R (row_at b i)) [0..<nrows b]"
    by simp
  show ?thesis
  proof (cases "map_err (\<lambda>i. hash_row R (row_at b i)) [0..<nrows b]")
    case (Inl e')
    with e show ?thesis by (simp add: compute_fact_id_def)
  next
    case (Inr hs)
    with e assms show ?thesis
      by (simp add: compute_fact_id_def agree_on_def map_of_setitem nrows_setitem)
  qed
qed

lemma select_present_cong:
  fixes a b :: "'n frame"
  assumes "agree_on (set names) a b"
  shows "select_present names a = select_present names b"
proof -
  have "List.map_filter (\<lambda>c. map_option (Pair c) (map_of (cols a) c)) ns =
        List.map_filter (\<lambda>c. map_option (Pair c) (map_of (cols b) c)) ns" if "set ns \<subseteq> set names" for ns
    using that assms by (induction ns) (auto simp: List.map_filter_simps agree_on_def split: option.splits)
  then show ?thesis using assms by (simp add: select_present_def agree_on_def)
qed

lemma finish_cong:
  fixes a b :: "'n frame"
  assumes "agree_on (insert ''fact_id'' (set FK_COLUMNS \<union> set METRIC_COLUMNS)) a b"
  shows "reorder_columns (add_audit_columns now a) = reorder_columns (add_audit_columns now b)"
  unfolding reorder_columns_def
proof (rule select_present_cong)
  show "agree_on (set FACT_COLUMN_ORDER) (add_audit_columns now a) (add_audit_columns now b)"
    using assms
    by (auto simp: agree_on_def add_audit_columns_def map_of_setitem nrows_setitem FACT_COLUMN_ORDER_def)
qed

lemma after_rename_cong:
  fixes a b :: "'n frame"
  assumes n: "nrows a = nrows b"
    and fk: "\<forall>c \<in> set FK_COLUMNS.
               map_option (map (str_strip R)) (map_of (cols a) c) =
               map_option (map (str_strip R)) (map_of (cols b) c)"
    and m: "\<forall>c \<in> set METRIC_COLUMNS. map_of (cols a) c = map_of (cols b) c"
  shows "run_fact_steps R now [CastTypes, HandleNulls, ComputeFactId, AddAuditColumns, ReorderColumns] a =
         run_fact_steps R now [CastTypes, HandleNulls, ComputeFactId, AddAuditColumns, ReorderColumns] b"
proof (cases "cast_types R a")
  case (Inl e)
  with cast_types_outcome[OF n fk m] show ?thesis by simp
next
  case (Inr a1)
  with cast_types_outcome[OF n fk m] obtain b1 where
    b1: "cast_types R b = Inr b1" and r1: "agree_on (set FK_COLUMNS \<union> set METRIC_COLUMNS) a1 b1"
    by auto
  show ?thesis
  proof (cases "fact_handle_nulls a1")
    case (Inl e)
    with fact_handle_nulls_outcome[OF r1] Inr b1 show ?thesis by simp
  next
    case a2: (Inr a2)
    with fact_handle_nulls_outcome[OF r1] obtain b2 where
      b2: "fact_handle_nulls b1 = Inr b2" and r2: "agree_on (set FK_COLUMNS \<union> set METRIC_COLUMNS) a2 b2"
      by auto
    show ?thesis
    proof (cases "compute_fact_id R a2")
      case (Inl e)
      with compute_fact_id_outcome[OF r2, of R] Inr b1 a2 b2 show ?thesis by simp
    next
      case a3: (Inr a3)
      with compute_fact_id_outcome[OF r2, of R] obtain b3 where
        b3: "compute_fact_id R b2 = Inr b3" and
        r3: "agree_on (insert ''fact_id'' (set FK_COLUMNS \<union> set METRIC_COLUMNS)) a3 b3"
        by auto
      from finish_cong[OF r3] Inr b1 a2 b2 a3 b3 show ?thesis by simp
    qed
  qed
qed

section \<open>Surrounding blanks\<close>





lemma same_up_to_padding_refl: "same_up_to_padding x x"
  by (cases x) simp_all





lemma fact_transform_after_rename:
  "fact_transform R now df =
     run_fact_steps R now [CastTypes, HandleNulls, ComputeFactId, AddAuditColumns, ReorderColumns]
       (fact_rename_columns df)"
  by (simp add: fact_transform_def FACT_TRANSFORM_CHAIN_def)


section \<open>The dimension pipeline in closed form\<close>






section \<open>What the schemas accept\<close>

lemma map_err_Inr_iff:
  "map_err f xs = Inr ys \<longleftrightarrow> list_all2 (\<lambda>x y. f x = Inr y) xs ys"
proof (induction xs arbitrary: ys)
  case Nil
  then show ?case by auto
next
  case (Cons x xs)
  show ?case
  proof (cases "f x")
    case (Inl e)
    then show ?thesis by (auto simp: list_all2_Cons1)
  next
    case (Inr y)
    then have "map_err f (x # xs) = Inr ys \<longleftrightarrow> (\<exists>zs. map_err f xs = Inr zs \<and> ys = y # zs)"
      by (cases "map_err f xs") auto
    also have "\<dots> \<longleftrightarrow> (\<exists>zs. list_all2 (\<lambda>x y. f x = Inr y) xs zs \<and> ys = y # zs)"
      by (simp add: Cons)
    also have "\<dots> \<longleftrightarrow> list_all2 (\<lambda>x y. f x = Inr y) (x # xs) ys"
      using Inr by (auto simp: list_all2_Cons1)
    finally show ?thesis .
  qed
qed

lemma map_err_unit:
  "(\<exists>ys. map_err f xs = Inr ys) \<longleftrightarrow> list_all (\<lambda>x. f x = Inr ()) xs"
  for f :: "'a \<Rightarrow> error + unit"
proof (induction xs)
  case Nil
  then show ?case by simp
next
  case (Cons x xs)
  show ?case
  proof (cases "f x")
    case (Inl e)
    then show ?thesis by simp
  next
    case (Inr y)
    with Cons show ?thesis by (cases "map_err f xs") auto
  qed
qed

lemma map_err_Inl_or_Inr: "(\<exists>e. map_err f xs = Inl e) \<or> (\<exists>ys. map_err f xs = Inr ys)"
  by (cases "map_err f xs") auto

lemma not_list_ex: "\<not> list_ex P xs \<longleftrightarrow> list_all (\<lambda>x. \<not> P x) xs"
  by (induction xs) auto

lemma check_column_Inr:
  "check_column c spec v = Inr u \<longleftrightarrow>
     (nullable spec \<or> list_all (\<lambda>x. \<not> isnull x) v) \<and>
     (unique spec \<longrightarrow> distinct v) \<and>
     list_all (type_ok (ctype spec)) v \<and>
     (case isin spec of None \<Rightarrow> True | Some allowed \<Rightarrow> list_all (\<lambda>x. isnull x \<or> x \<in> set allowed) v)"
  by (auto simp: check_column_def list_ex_iff list_all_iff split: option.splits)

lemma find_None_present:
  "find (\<lambda>cs. map_of m (fst cs) = None) schema = None \<longleftrightarrow>
     list_all (\<lambda>cs. map_of m (fst cs) \<noteq> None) schema"
  by (induction schema) auto

lemma validate_schema_Inr:
  "validate_schema schema df = Inr df' \<longleftrightarrow> df' = df \<and> list_all (column_passes df) schema"
proof (cases "find (\<lambda>cs. map_of (cols df) (fst cs) = None) schema")
  case (Some cs)
  then have "cs \<in> set schema" "map_of (cols df) (fst cs) = None"
    by (auto simp: find_Some_iff)
  then have "cs \<in> set schema" "\<not> column_passes df cs"
    by (simp_all add: column_passes_def)
  then have "\<not> list_all (column_passes df) schema"
    unfolding list_all_iff by blast
  with Some show ?thesis by (simp add: validate_schema_def)
next
  case None
  then have pres: "list_all (\<lambda>cs. map_of (cols df) (fst cs) \<noteq> None) schema"
    by (simp add: find_None_present)
  let ?f = "\<lambda>cs. check_column (fst cs) (snd cs) (the (map_of (cols df) (fst cs)))"
  have "list_all (\<lambda>cs. ?f cs = Inr ()) schema \<longleftrightarrow> list_all (column_passes df) schema"
    using pres by (induction schema) (auto simp: column_passes_def)
  then have "(\<exists>ys. map_err ?f schema = Inr ys) \<longleftrightarrow> list_all (column_passes df) schema"
    by (simp add: map_err_unit)
  with None show ?thesis
    by (cases "map_err ?f schema") (auto simp: validate_schema_def)
qed

lemma validate_schema_cases:
  "(\<exists>e. validate_schema schema df = Inl e) \<or> validate_schema schema df = Inr df"
  by (cases "validate_schema schema df") (auto simp: validate_schema_Inr)

lemma type_ok_Str_nonnull: "type_ok StrType x \<and> \<not> isnull x \<longleftrightarrow> is_text x"
  by (cases x) (auto simp: is_text_def)

lemma type_ok_Str: "type_ok StrType x \<longleftrightarrow> is_text x \<or> isnull x"
  by (cases x) (auto simp: is_text_def)

lemma type_ok_Float: "type_ok FloatType x \<longleftrightarrow> is_number x \<or> isnull x"
  by (cases x) (auto simp: is_number_def)

lemma list_all_conj: "list_all P xs \<and> list_all Q xs \<longleftrightarrow> list_all (\<lambda>x. P x \<and> Q x) xs"
  by (induction xs) auto

lemma text_column:
  "list_all (\<lambda>x. \<not> isnull x) v \<and> list_all (type_ok StrType) v \<longleftrightarrow> list_all is_text v"
  by (induction v) (auto simp: type_ok_Str_nonnull[symmetric])

lemma dimension_schema_valid:
  "list_all (column_passes df) (dimension_schema :: 'n schema) \<longleftrightarrow> dimension_valid (df :: 'n frame)"
proof -
  have k: "column_passes df (''key'', \<lparr>ctype = StrType, nullable = False, unique = True, isin = None\<rparr>)
        \<longleftrightarrow> column_all is_text df ''key'' \<and> column_distinct df ''key''"
    using text_column
    by (auto simp: column_passes_def check_column_Inr column_all_def column_distinct_def
        split: option.splits)
  have t: "column_passes df (''title'', \<lparr>ctype = StrType, nullable = False, unique = False, isin = None\<rparr>)
        \<longleftrightarrow> column_all is_text df ''title''"
    using text_column
    by (auto simp: column_passes_def check_column_Inr column_all_def split: option.splits)
  have d: "column_passes df (''description'', \<lparr>ctype = StrType, nullable = True, unique = False, isin = None\<rparr>)
        \<longleftrightarrow> column_all (\<lambda>x. is_text x \<or> isnull x) df ''description''"
    by (auto simp: column_passes_def check_column_Inr column_all_def type_ok_Str[abs_def]
        split: option.splits)
  have i: "column_passes df (''ingested_at'', \<lparr>ctype = AnyType, nullable = False, unique = False, isin = None\<rparr>)
        \<longleftrightarrow> column_all (\<lambda>x. \<not> isnull x) df ''ingested_at''"
    by (auto simp: column_passes_def check_column_Inr column_all_def list_all_iff
        split: option.splits)
  show ?thesis
    by (simp add: dimension_schema_def dimension_valid_def k t d i)
qed

lemma list_all2_eq_and: "list_all2 (\<lambda>x y. y = x \<and> P x) xs ys \<longleftrightarrow> ys = xs \<and> list_all P xs"
  by (induction xs arbitrary: ys) (auto simp: list_all2_Cons1)

lemma validate_dimensions_Inr:
  "validate_dimensions dims = Inr dims' \<longleftrightarrow>
     dims' = dims \<and> list_all (\<lambda>nd. dimension_valid (snd nd)) dims"
proof -
  let ?f = "\<lambda>nd. case validate_schema dimension_schema (snd nd) of
                      Inl e \<Rightarrow> Inl e
                    | Inr df \<Rightarrow> Inr (fst nd, df)"
  have f: "?f nd = Inr y \<longleftrightarrow> y = nd \<and> dimension_valid (snd nd)" for nd y
    using validate_schema_Inr[of dimension_schema "snd nd"] dimension_schema_valid[of "snd nd"]
    by (cases "validate_schema dimension_schema (snd nd)") (auto simp: prod_eq_iff)
  have "list_all2 (\<lambda>x y. ?f x = Inr y) xs ys \<longleftrightarrow> ys = xs \<and> list_all (\<lambda>nd. dimension_valid (snd nd)) xs"
    for xs ys
    by (simp add: f list_all2_eq_and)
  then show ?thesis by (simp add: validate_dimensions_def map_err_Inr_iff)
qed

lemma dimension_keys_Inr:
  "dimension_keys dims n = Inr ks \<longleftrightarrow>
     (\<exists>dim. map_of dims n = Some dim \<and> map_of (cols dim) ''key'' = Some ks)"
  by (auto simp: dimension_keys_def getitem_def split: option.splits)

lemma fk_column_passes:
  "column_passes facts (fk_column c ks) \<longleftrightarrow> column_all (\<lambda>x. is_text x \<and> x \<in> set ks) facts c"
proof -
  have "list_all (\<lambda>x. \<not> isnull x) v \<and> list_all (type_ok StrType) v \<and>
        list_all (\<lambda>x. isnull x \<or> x \<in> set ks) v \<longleftrightarrow> list_all (\<lambda>x. is_text x \<and> x \<in> set ks) v"
    for v :: "'a cell list"
    by (induction v) (auto simp: type_ok_Str_nonnull[symmetric])
  then show ?thesis
    by (auto simp: column_passes_def fk_column_def check_column_Inr column_all_def
        split: option.splits)
qed

lemma metric_column_passes:
  "column_passes facts (metric_column c) \<longleftrightarrow> column_all (\<lambda>x. is_number x \<or> isnull x) facts c"
  by (auto simp: column_passes_def metric_column_def check_column_Inr column_all_def
      type_ok_Float[abs_def] split: option.splits)

lemma fact_id_passes:
  "column_passes facts (''fact_id'', \<lparr>ctype = StrType, nullable = False, unique = False, isin = None\<rparr>)
     \<longleftrightarrow> column_all is_text facts ''fact_id''"
  using text_column
  by (auto simp: column_passes_def check_column_Inr column_all_def split: option.splits)

lemma ingested_at_passes:
  "column_passes facts (''ingested_at'', \<lparr>ctype = AnyType, nullable = False, unique = False, isin = None\<rparr>)
     \<longleftrightarrow> column_all (\<lambda>x. \<not> isnull x) facts ''ingested_at''"
  by (auto simp: column_passes_def check_column_Inr column_all_def list_all_iff
      split: option.splits)

lemma fk_columns_pass:
  "list_all2 (\<lambda>fd ks. dimension_keys dims (snd fd) = Inr ks) fds keys \<Longrightarrow>
     list_all (column_passes facts) (map2 fk_column (map fst fds) keys) \<longleftrightarrow>
     list_all (fk_valid dims facts) fds"
proof (induction rule: list_all2_induct)
  case Nil
  then show ?case by simp
next
  case (Cons fd fds ks keys)
  from Cons(1) have "fk_valid dims facts fd \<longleftrightarrow> column_all (\<lambda>x. is_text x \<and> x \<in> set ks) facts (fst fd)"
    by (auto simp: fk_valid_def dimension_keys_Inr)
  with Cons show ?case by (simp add: fk_column_passes)
qed

lemma fk_valid_keys:
  "list_all (fk_valid dims facts) fds \<Longrightarrow>
     \<exists>keys. list_all2 (\<lambda>fd ks. dimension_keys dims (snd fd) = Inr ks) fds keys"
proof (induction fds)
  case Nil
  then show ?case by simp
next
  case (Cons fd fds)
  then obtain keys where k: "list_all2 (\<lambda>fd ks. dimension_keys dims (snd fd) = Inr ks) fds keys"
    by auto
  from Cons.prems obtain ks where "dimension_keys dims (snd fd) = Inr ks"
    by (auto simp: fk_valid_def dimension_keys_Inr split: option.splits)
  with k have "list_all2 (\<lambda>fd ks. dimension_keys dims (snd fd) = Inr ks) (fd # fds) (ks # keys)"
    by simp
  then show ?case by blast
qed

lemma validate_fact_Inr:
  "validate_fact dims facts = Inr f \<longleftrightarrow> f = facts \<and> fact_valid dims facts"
proof (cases "map_err (\<lambda>fd. dimension_keys dims (snd fd)) FK_DIMENSIONS")
  case (Inl e)
  have "\<not> list_all (fk_valid dims facts) FK_DIMENSIONS"
  proof
    assume "list_all (fk_valid dims facts) FK_DIMENSIONS"
    from fk_valid_keys[OF this] Inl show False by (auto simp: map_err_Inr_iff[symmetric])
  qed
  with Inl show ?thesis by (simp add: validate_fact_def fact_schema_def fact_valid_def)
next
  case (Inr keys)
  then have k: "list_all2 (\<lambda>fd ks. dimension_keys dims (snd fd) = Inr ks) FK_DIMENSIONS keys"
    by (simp add: map_err_Inr_iff)
  have m: "list_all (column_passes facts) (map metric_column cs) \<longleftrightarrow>
           list_all (column_all (\<lambda>x. is_number x \<or> isnull x) facts) cs" for cs
    by (induction cs) (simp_all add: metric_column_passes)
  show ?thesis
    using Inr fk_columns_pass[OF k, of facts]
    by (auto simp: validate_fact_def fact_schema_def validate_schema_Inr fact_valid_def
        fact_id_passes ingested_at_passes m)
qed

lemma validate_all_Inr:
  "validate_all dims facts = Inr b \<longleftrightarrow>
     b \<and> list_all (\<lambda>nd. dimension_valid (snd nd)) dims \<and> fact_valid dims facts"
proof (cases "validate_dimensions dims")
  case (Inl e)
  then have "\<not> list_all (\<lambda>nd. dimension_valid (snd nd)) dims"
    using validate_dimensions_Inr[of dims dims] by auto
  with Inl show ?thesis by (simp add: validate_all_def)
next
  case (Inr d)
  then have d: "list_all (\<lambda>nd. dimension_valid (snd nd)) dims"
    by (simp add: validate_dimensions_Inr)
  show ?thesis
  proof (cases "validate_fact dims facts")
    case (Inl e)
    then have "\<not> fact_valid dims facts"
      using validate_fact_Inr[of dims facts facts] by auto
    with Inl Inr show ?thesis by (simp add: validate_all_def)
  next
    case f: (Inr f)
    then have "fact_valid dims facts" by (simp add: validate_fact_Inr)
    with f Inr d show ?thesis by (auto simp: validate_all_def)
  qed
qed

lemma validate_all_cases:
  "validate_all dims facts = Inr True \<or> (\<exists>e. validate_all dims facts = Inl e)"
  by (cases "validate_all dims facts") (auto simp: validate_all_Inr)

lemma map_err_first_error:
  "map_err f xs = Inl e \<Longrightarrow> \<exists>x \<in> set xs. f x = Inl e"
proof (induction xs)
  case Nil
  then show ?case by simp
next
  case (Cons x xs)
  then show ?case by (cases "f x"; cases "map_err f xs") auto
qed

lemma map_err_Inl_if:
  "x \<in> set xs \<Longrightarrow> f x = Inl e \<Longrightarrow> \<exists>e'. map_err f xs = Inl e'"
proof (induction xs)
  case Nil
  then show ?case by simp
next
  case (Cons y ys)
  then show ?case by (cases "f y"; cases "map_err f ys") auto
qed

lemma dimension_keys_Inl:
  "dimension_keys dims n = Inl e \<Longrightarrow>
     (e = KeyError n \<and> map_of dims n = None) \<or>
     (e = KeyError ''key'' \<and> (\<exists>dim. map_of dims n = Some dim \<and> map_of (cols dim) ''key'' = None))"
  by (auto simp: dimension_keys_def getitem_def split: option.splits)

lemma fact_schema_missing:
  assumes "n \<in> set (map snd FK_DIMENSIONS)" "map_of dims n = None"
  shows "\<exists>k. fact_schema dims = Inl (KeyError k) \<and>
             (list_all (\<lambda>nd. dimension_valid (snd nd)) dims \<longrightarrow>
                k \<in> set (map snd FK_DIMENSIONS) \<and> map_of dims k = None)"
proof -
  define f where "f = (\<lambda>fd :: string \<times> string. dimension_keys dims (snd fd))"
  from assms obtain fd where fd: "fd \<in> set FK_DIMENSIONS" "snd fd = n" by auto
  with assms(2) have "f fd = Inl (KeyError n)" by (simp add: dimension_keys_def f_def)
  with fd(1) have "\<exists>e'. map_err f FK_DIMENSIONS = Inl e'" by (rule map_err_Inl_if)
  then obtain e where e: "map_err f FK_DIMENSIONS = Inl e" by blast
  then have "\<exists>x \<in> set FK_DIMENSIONS. f x = Inl e" by (rule map_err_first_error)
  then obtain fd' where fd': "fd' \<in> set FK_DIMENSIONS" "dimension_keys dims (snd fd') = Inl e"
    by (auto simp: f_def)
  from e have fs: "fact_schema dims = Inl e" by (simp add: fact_schema_def f_def)
  from dimension_keys_Inl[OF fd'(2)] show ?thesis
  proof
    assume "e = KeyError (snd fd') \<and> map_of dims (snd fd') = None"
    with fs fd'(1) show ?thesis by auto
  next
    assume k: "e = KeyError ''key'' \<and>
      (\<exists>dim. map_of dims (snd fd') = Some dim \<and> map_of (cols dim) ''key'' = None)"
    then obtain dim where dim: "map_of dims (snd fd') = Some dim" "map_of (cols dim) ''key'' = None"
      by blast
    then have "(snd fd', dim) \<in> set dims" by (simp add: map_of_SomeD)
    moreover have "\<not> dimension_valid dim" using dim(2) by (simp add: dimension_valid_def column_all_def)
    ultimately have "\<not> list_all (\<lambda>nd. dimension_valid (snd nd)) dims"
      unfolding list_all_iff by force
    with fs k show ?thesis by auto
  qed
qed

lemma transform_dimensions_absent:
  "map_of raw n = None \<Longrightarrow> map_of acc n = None \<Longrightarrow>
     map_of (transform_dimensions R clk raw acc) n = None"
proof (induction raw arbitrary: acc)
  case Nil
  then show ?case by simp
next
  case (Cons p raw)
  obtain name df where p: "p = (name, df)" by (cases p)
  with Cons.prems have ne: "name \<noteq> n" and r: "map_of raw n = None" by (auto split: if_splits)
  have "map_of (dict_set acc name v) n = None" for v
    using Cons.prems(2) ne
    by (auto simp: dict_set_def map_of_eq_None_iff image_iff split: prod.splits)
  with Cons.IH[OF r] Cons.prems(2) r p show ?case by simp
qed

section \<open>The loader\<close>

lemma map_of_dict_set: "map_of (dict_set d k v) = (map_of d)(k \<mapsto> v)"
proof (rule ext)
  fix x
  have same: "map_of (map (\<lambda>(k', v'). if k' = k then (k', v) else (k', v')) xs) k =
        (if k \<in> set (map fst xs) then Some v else None)" for xs :: "('a \<times> 'b) list"
    by (induction xs) (simp_all add: case_prod_unfold)
  have other: "x \<noteq> k \<Longrightarrow> map_of (map (\<lambda>(k', v'). if k' = k then (k', v) else (k', v')) xs) x = map_of xs x"
    for xs :: "('a \<times> 'b) list"
    by (induction xs) (simp_all add: case_prod_unfold)
  show "map_of (dict_set d k v) x = ((map_of d)(k \<mapsto> v)) x"
  proof (cases "k \<in> set (map fst d)")
    case True
    then show ?thesis using same[of d] other[of d] by (cases "x = k") (simp_all add: dict_set_def)
  next
    case False
    then have "map_of d k = None" by (simp add: map_of_eq_None_iff)
    with False show ?thesis by (simp add: dict_set_def map_add_def split: option.splits)
  qed
qed









section \<open>The parser: one round after the other\<close>

lemma parse_section_cases:
  "parse_section R sep content sections st i =
     (case section_result R sep content sections i of
        None \<Rightarrow> st
      | Some (Inr df) \<Rightarrow> (dict_set (fst st) (sections ! i) df, snd st)
      | Some (Inl e) \<Rightarrow> (fst st, snd st @ [(sections ! i, e)]))"
  by (simp add: parse_section_def section_result_def split: option.splits sum.splits)

lemma parse_section_None:
  "section_result R sep content sections i = None \<Longrightarrow>
     parse_section R sep content sections st i = st"
  by (simp add: parse_section_cases)

lemma parse_section_Inl:
  "section_result R sep content sections i = Some (Inl e) \<Longrightarrow>
     parse_section R sep content sections st i = (fst st, snd st @ [(sections ! i, e)])"
  by (simp add: parse_section_cases)

lemma parse_section_Inr:
  "section_result R sep content sections i = Some (Inr df) \<Longrightarrow>
     parse_section R sep content sections st i = (dict_set (fst st) (sections ! i) df, snd st)"
  by (simp add: parse_section_cases)

lemma section_result_cases:
  obtains "section_result R sep content sections i = None"
  | e where "section_result R sep content sections i = Some (Inl e)"
  | df where "section_result R sep content sections i = Some (Inr df)"
proof (cases "section_result R sep content sections i")
  case None
  then show ?thesis using that(1) by simp
next
  case (Some r)
  then show ?thesis using that(2,3) by (cases r) simp_all
qed

lemma foldl_parse_section_log:
  "snd (foldl (parse_section R sep content sections) st idx) =
     snd st @ concat (map (\<lambda>i. case section_result R sep content sections i of
                            Some (Inl e) \<Rightarrow> [(sections ! i, e)]
                          | _ \<Rightarrow> []) idx)"
proof (induction idx arbitrary: st)
  case Nil
  then show ?case by simp
next
  case (Cons i idx)
  show ?case
    by (rule section_result_cases[of R sep content sections i])
       (simp_all add: Cons.IH parse_section_None parse_section_Inl parse_section_Inr)
qed

lemma foldl_parse_section_map:
  "map_of (fst (foldl (parse_section R sep content sections) st idx)) =
     map_of (rev (concat (map (\<lambda>i. case section_result R sep content sections i of
                            Some (Inr df) \<Rightarrow> [(sections ! i, df)]
                          | _ \<Rightarrow> []) idx)) @ fst st)"
proof (induction idx arbitrary: st)
  case Nil
  then show ?case by simp
next
  case (Cons i idx)
  show ?case
    by (rule section_result_cases[of R sep content sections i])
       (simp_all add: Cons.IH parse_section_None parse_section_Inl parse_section_Inr
          map_of_dict_set)
qed

lemma dict_set_new: "k \<notin> fst ` set d \<Longrightarrow> dict_set d k v = d @ [(k, v)]"
  by (simp add: dict_set_def)

lemma fst_replace:
  "fst (case x of (k', v') \<Rightarrow> if k' = k then (k', v) else (k', v')) = fst x"
  by (cases x) simp

lemma map_fst_dict_set:
  "map fst (dict_set d k v) = (if k \<in> fst ` set d then map fst d else map fst d @ [k])"
  by (induction d) (simp_all add: dict_set_def fst_replace)

lemma distinct_dict_set: "distinct (map fst d) \<Longrightarrow> distinct (map fst (dict_set d k v))"
  by (simp add: map_fst_dict_set)

lemma foldl_parse_section_distinct:
  "distinct (map fst (fst st)) \<Longrightarrow>
     distinct (map fst (fst (foldl (parse_section R sep content sections) st idx)))"
proof (induction idx arbitrary: st)
  case Nil
  then show ?case by simp
next
  case (Cons i idx)
  have "distinct (map fst (fst (parse_section R sep content sections st i)))"
    by (rule section_result_cases[of R sep content sections i])
       (simp_all add: Cons.prems parse_section_None parse_section_Inl parse_section_Inr
          distinct_dict_set)
  from Cons.IH[OF this] show ?case by simp
qed

lemma foldl_parse_section_frames:
  assumes "distinct (map (\<lambda>i. sections ! i) idx)"
    and "\<forall>i \<in> set idx. sections ! i \<notin> fst ` set (fst st)"
  shows "fst (foldl (parse_section R sep content sections) st idx) =
     fst st @ concat (map (\<lambda>i. case section_result R sep content sections i of
                            Some (Inr df) \<Rightarrow> [(sections ! i, df)]
                          | _ \<Rightarrow> []) idx)"
  using assms
proof (induction idx arbitrary: st)
  case Nil
  then show ?case by simp
next
  case (Cons i idx)
  let ?st = "parse_section R sep content sections st i"
  from Cons.prems have d: "distinct (map (\<lambda>i. sections ! i) idx)"
    and n: "\<forall>j \<in> set idx. sections ! j \<noteq> sections ! i"
    and new: "sections ! i \<notin> fst ` set (fst st)"
    and old: "\<forall>j \<in> set idx. sections ! j \<notin> fst ` set (fst st)" by (auto simp: image_iff)
  show ?case
  proof (rule section_result_cases[of R sep content sections i])
    assume r: "section_result R sep content sections i = None"
    with Cons.IH[OF d, of st] old show ?thesis by (simp add: parse_section_None)
  next
    fix e assume r: "section_result R sep content sections i = Some (Inl e)"
    with Cons.IH[OF d, of "(fst st, snd st @ [(sections ! i, e)])"] old show ?thesis
      by (simp add: parse_section_Inl)
  next
    fix df assume r: "section_result R sep content sections i = Some (Inr df)"
    have "\<forall>j \<in> set idx. sections ! j \<notin> fst ` set (fst (fst st @ [(sections ! i, df)], snd st))"
      using old n by auto
    from Cons.IH[OF d this] r new show ?thesis
      by (simp add: parse_section_Inr dict_set_new)
  qed
qed


lemma parse_content_log:
  "snd (parse_content R sep content) = section_failures R sep content"
  by (simp add: parse_content_def section_failures_def Let_def foldl_parse_section_log)

lemma parse_content_map:
  "map_of (fst (parse_content R sep content)) = map_of (rev (section_frames R sep content))"
  by (simp add: parse_content_def section_frames_def Let_def foldl_parse_section_map)

lemma parse_content_distinct_keys:
  "distinct (map fst (fst (parse_content R sep content)))"
  by (simp add: parse_content_def Let_def foldl_parse_section_distinct)

lemma parse_content_frames:
  assumes "distinct (find_sections content)"
  shows "fst (parse_content R sep content) = section_frames R sep content"
proof -
  let ?s = "find_sections content"
  have "map (\<lambda>i. ?s ! i) [0..<length ?s] = ?s" by (rule map_nth)
  with assms have d: "distinct (map (\<lambda>i. ?s ! i) [0..<length ?s])" by simp
  from foldl_parse_section_frames[OF d, of "([], [])" R sep content] show ?thesis
    by (simp add: parse_content_def section_frames_def Let_def)
qed

lemma section_frames_mem:
  "(name, df) \<in> set (section_frames R sep content) \<longleftrightarrow>
     (\<exists>i < length (find_sections content). find_sections content ! i = name \<and>
        section_result R sep content (find_sections content) i = Some (Inr df))"
  unfolding section_frames_def Let_def
  by (auto split: option.splits sum.splits) force

lemma section_failures_mem:
  "(name, e) \<in> set (section_failures R sep content) \<longleftrightarrow>
     (\<exists>i < length (find_sections content). find_sections content ! i = name \<and>
        section_result R sep content (find_sections content) i = Some (Inl e))"
  unfolding section_failures_def Let_def
  by (auto split: option.splits sum.splits) force

section \<open>C1: the fact identifier\<close>

lemma md5_example:
  "md5_hexdigest ''TM1|P1|M1|MG1|R1|2023JJ00'' = ''ba29aa5c52e9980ff10e8fb33a19ee84''"
  by code_simp



section \<open>The worked examples, evaluated\<close>


section \<open>C2: the order of the fact normalization steps\<close>

lemma spec_chain_same_result:
  fixes df :: "'n frame"
  shows "run_fact_steps R now SPEC_FACT_CHAIN df = fact_transform R now df"
proof -
  let ?r = "fact_rename_columns df"
  have n: "nrows (drop_unused_columns ?r) = nrows ?r"
    by (simp add: drop_unused_columns_def nrows_select_present)
  have keep: "c \<in> set FK_COLUMNS \<union> set METRIC_COLUMNS \<Longrightarrow>
        map_of (cols (drop_unused_columns ?r)) c = map_of (cols ?r) c" for c
    by (auto simp: drop_unused_columns_def map_of_select_present)
  have "run_fact_steps R now [CastTypes, HandleNulls, ComputeFactId, AddAuditColumns, ReorderColumns]
          (drop_unused_columns ?r) =
        run_fact_steps R now [CastTypes, HandleNulls, ComputeFactId, AddAuditColumns, ReorderColumns] ?r"
    by (rule after_rename_cong[OF n]) (simp_all add: keep)
  then show ?thesis
    by (simp add: SPEC_FACT_CHAIN_def fact_transform_after_rename)
qed

text \<open>
  C2 (amended).  \<open>FactTransformer.transform\<close> runs, in this order: rename, cast (the
  foreign keys are made text and stripped, then the metrics are made numeric), null
  handling (the dot sentinel, then the general pass), the identifier, the timestamp,
  the reordering.  It has no separate drop step: a column outside the model stays in the
  frame until the final reordering leaves it out.  The result, frame or exception, is the
  one that the order of the specification (drop as step 2) gives, and a returned frame
  has exactly the columns \<open>fact_id\<close>, the six keys, the six metrics, \<open>ingested_at\<close>.
\<close>

theorem fact_transform_order:
  "fact_transform R now df =
     run_fact_steps R now
       [RenameColumns, CastTypes, HandleNulls, ComputeFactId, AddAuditColumns, ReorderColumns] df \<and>
   DropUnusedColumns \<notin> set FACT_TRANSFORM_CHAIN \<and>
   run_fact_steps R now SPEC_FACT_CHAIN df = fact_transform R now df \<and>
   (fact_transform R now df = Inr out \<longrightarrow> columns out = FACT_COLUMN_ORDER)"
  using fact_transform_Inr(6)[of R now df out]
  by (simp add: spec_chain_same_result) (simp add: fact_transform_def FACT_TRANSFORM_CHAIN_def)

text \<open>The example table has an extra column \<open>ID\<close>; both orders give the canonical frame.\<close>

theorem fact_transform_order_witness:
  "fact_transform example_runtime 7 example_fact_raw = Inr example_fact_canonical \<and>
   run_fact_steps example_runtime 7 SPEC_FACT_CHAIN example_fact_raw = Inr example_fact_canonical \<and>
   columns example_fact_canonical = FACT_COLUMN_ORDER"
  using fact_transform_order[of example_runtime 7 example_fact_raw example_fact_canonical]
    example_fact_transform
  by simp

text \<open>
  C2 as stated fails: the second call of the chain is \<open>cast_types\<close>, not the drop, and
  on the example input the extra column \<open>ID\<close> is still there once the keys are stripped
  and the metrics coerced.
\<close>

theorem drop_is_not_step_two:
  "FACT_TRANSFORM_CHAIN \<noteq> SPEC_FACT_CHAIN \<and>
   take 2 FACT_TRANSFORM_CHAIN = [RenameColumns, CastTypes] \<and>
   take 2 SPEC_FACT_CHAIN = [RenameColumns, DropUnusedColumns] \<and>
   run_fact_steps example_runtime 7 (take 2 FACT_TRANSFORM_CHAIN) example_fact_raw = Inr example_fact_cast \<and>
   ''ID'' \<in> set (columns example_fact_cast) \<and>
   ''ID'' \<notin> set (FK_COLUMNS @ METRIC_COLUMNS)"
  by code_simp

section \<open>C7: surrounding blanks on keys do not matter\<close>



section \<open>C8: what becomes null\<close>







section \<open>C4: what validation accepts\<close>




section \<open>C10: a missing dimension table\<close>

lemma dimension_names: "set (map snd FK_DIMENSIONS) = set DIMENSION_NAMES"
  by (simp add: FK_DIMENSIONS_def DIMENSION_NAMES_def insert_commute)

text \<open>
  C10.  When one of the six dimension tables is missing from the mapping,
  \<open>fact_schema\<close> raises \<open>KeyError\<close> and so does \<open>validate_fact\<close>, whatever the fact table
  is: no rule is evaluated, and the exception is not a \<open>SchemaError\<close>.  When the tables
  that are present pass dimension validation, the key of the error is the name of a missing
  table and \<open>validate_all\<close> raises it.  Dimension validation itself passes on any part
  of a mapping on which it passes, so it does not see the absence.  A section that is
  not among the raw dimensions is not among the transformed ones.
\<close>

theorem missing_dimension_lookup_error:
  "(n \<in> set DIMENSION_NAMES \<and> map_of dims n = None \<longrightarrow>
      (\<exists>k. fact_schema dims = Inl (KeyError k) \<and>
           validate_fact dims facts = Inl (KeyError k) \<and>
           (validate_dimensions dims = Inr dims \<longrightarrow>
              k \<in> set DIMENSION_NAMES \<and> map_of dims k = None \<and>
              validate_all dims facts = Inl (KeyError k)))) \<and>
   (validate_dimensions dims = Inr dims \<longrightarrow>
      validate_dimensions (filter P dims) = Inr (filter P dims)) \<and>
   (map_of raw n = None \<longrightarrow> map_of (transform_dimensions R clk raw []) n = None)"
proof (intro conjI impI)
  assume a: "n \<in> set DIMENSION_NAMES \<and> map_of dims n = None"
  then have nin: "n \<in> set (map snd FK_DIMENSIONS)" by (simp only: dimension_names)
  from a have nn: "map_of dims n = None" by simp
  from fact_schema_missing[OF nin nn] obtain k where
    k: "fact_schema dims = Inl (KeyError k)"
       "list_all (\<lambda>nd. dimension_valid (snd nd)) dims \<longrightarrow>
          k \<in> set (map snd FK_DIMENSIONS) \<and> map_of dims k = None"
    by blast
  have vf: "validate_fact dims facts = Inl (KeyError k)"
    using k(1) by (simp add: validate_fact_def)
  have "k \<in> set DIMENSION_NAMES \<and> map_of dims k = None \<and> validate_all dims facts = Inl (KeyError k)"
    if v: "validate_dimensions dims = Inr dims"
  proof -
    from v have "list_all (\<lambda>nd. dimension_valid (snd nd)) dims"
      by (simp add: validate_dimensions_Inr)
    with k(2) have "k \<in> set DIMENSION_NAMES \<and> map_of dims k = None"
      by (simp only: dimension_names)
    moreover have "validate_all dims facts = Inl (KeyError k)"
      using v vf by (simp add: validate_all_def)
    ultimately show ?thesis by simp
  qed
  with k(1) vf
  show "\<exists>k. fact_schema dims = Inl (KeyError k) \<and>
           validate_fact dims facts = Inl (KeyError k) \<and>
           (validate_dimensions dims = Inr dims \<longrightarrow>
              k \<in> set DIMENSION_NAMES \<and> map_of dims k = None \<and>
              validate_all dims facts = Inl (KeyError k))"
    by blast
next
  assume "validate_dimensions dims = Inr dims"
  then have "list_all (\<lambda>nd. dimension_valid (snd nd)) dims"
    by (simp add: validate_dimensions_Inr)
  then have "list_all (\<lambda>nd. dimension_valid (snd nd)) (filter P dims)"
    by (simp add: list_all_iff)
  then show "validate_dimensions (filter P dims) = Inr (filter P dims)"
    by (simp add: validate_dimensions_Inr)
next
  assume "map_of raw n = None"
  then show "map_of (transform_dimensions R clk raw []) n = None"
    by (rule transform_dimensions_absent) simp
qed

text \<open>The example dimensions without the periods, and any fact table.\<close>

theorem missing_dimension_lookup_error_witness:
  "''Periods'' \<in> set DIMENSION_NAMES \<and>
   map_of (butlast example_dimensions) ''Periods'' = None \<and>
   validate_dimensions (butlast example_dimensions) = Inr (butlast example_dimensions) \<and>
   fact_schema (butlast example_dimensions) = Inl (KeyError ''Periods'') \<and>
   validate_fact (butlast example_dimensions) example_fact_canonical = Inl (KeyError ''Periods'') \<and>
   validate_all (butlast example_dimensions) example_fact_canonical = Inl (KeyError ''Periods'')"
proof -
  have 1: "''Periods'' \<in> set DIMENSION_NAMES" by (simp add: DIMENSION_NAMES_def)
  have 2: "map_of (butlast example_dimensions) ''Periods'' = None" by code_simp
  have 3: "validate_dimensions (butlast example_dimensions) = Inr (butlast example_dimensions)"
    by code_simp
  have 4: "fact_schema (butlast example_dimensions) = (Inl (KeyError ''Periods'') :: error + string schema)"
    by code_simp
  from missing_dimension_lookup_error[of "''Periods''" "butlast example_dimensions"
      example_fact_canonical "\<lambda>_. True" "[]" example_runtime "\<lambda>_. 7"] 1 2 3 4
  show ?thesis by auto
qed

section \<open>The worked run, evaluated\<close>



lemma example_run:
  "etl_run example_runtime example_environment example_database =
     \<lparr>outcome = Inr example_result, database = example_database_final,
      stages = [Extract, Transform, Validate, Load]\<rparr>"
  by code_simp

lemma example_run_unknown_key:
  "etl_run example_runtime example_environment_unknown_key example_database =
     \<lparr>outcome = Inl (SchemaError ''travel_motive_key'' ''isin''), database = example_database,
      stages = [Extract, Transform, Validate]\<rparr>"
  by code_simp

section \<open>C6: what an upsert overwrites\<close>





section \<open>C5: the stages of a run\<close>

text \<open>
  C5.  A run enters the stages extract, transform, validate, load in this order, each at
  most once, and stops at the first stage that raises: the stages entered are a prefix of
  the four, a run that returns a result went through all four, and a run that did not
  enter the load stage ended with an exception and left the database as it was.  The load
  stage is entered only when validation returned.  When validation raises, the run ends
  with that exception after the stages extract, transform, validate, and the database is
  unchanged.
\<close>

theorem stages_in_order:
  "stages (etl_run R env db) \<in>
     set [[Extract], [Extract, Transform], [Extract, Transform, Validate],
          [Extract, Transform, Validate, Load]] \<and>
   ((\<exists>r. outcome (etl_run R env db) = Inr r) \<longrightarrow>
      stages (etl_run R env db) = [Extract, Transform, Validate, Load]) \<and>
   (Load \<notin> set (stages (etl_run R env db)) \<longrightarrow>
      database (etl_run R env db) = db \<and> (\<exists>e. outcome (etl_run R env db) = Inl e)) \<and>
   (Load \<in> set (stages (etl_run R env db)) \<longrightarrow>
      (\<exists>raw t. etl_extract R env = Inr raw \<and> etl_transform R env raw = Inr t \<and>
              validate_all (fst t) (snd t) = Inr True)) \<and>
   (etl_extract R env = Inl e \<longrightarrow>
      etl_run R env db = \<lparr>outcome = Inl e, database = db, stages = [Extract]\<rparr>) \<and>
   (etl_extract R env = Inr raw \<and> etl_transform R env raw = Inl e \<longrightarrow>
      etl_run R env db = \<lparr>outcome = Inl e, database = db, stages = [Extract, Transform]\<rparr>) \<and>
   (etl_extract R env = Inr raw \<and> etl_transform R env raw = Inr t \<and>
    validate_all (fst t) (snd t) = Inl e \<longrightarrow>
      etl_run R env db =
        \<lparr>outcome = Inl e, database = db, stages = [Extract, Transform, Validate]\<rparr>)"
proof -
  have v: "etl_validate t = Inr t' \<longleftrightarrow> t' = t \<and> validate_all (fst t) (snd t) = Inr True"
    for t t' :: "'a tables \<times> 'a frame"
    using validate_all_cases[of "fst t" "snd t"]
    by (auto simp: etl_validate_def split: sum.splits)
  have w: "etl_validate t = Inl e' \<longleftrightarrow> validate_all (fst t) (snd t) = Inl e'"
    for t :: "'a tables \<times> 'a frame" and e'
    by (auto simp: etl_validate_def split: sum.splits)
  show ?thesis
  proof (cases "etl_extract R env")
    case Inl
    then show ?thesis by (simp add: etl_run_def)
  next
    case (Inr raw')
    note ex = this
    show ?thesis
    proof (cases "etl_transform R env raw'")
      case Inl
      with ex show ?thesis by (auto simp: etl_run_def)
    next
      case (Inr t')
      note tr = this
      show ?thesis
      proof (cases "etl_validate t'")
        case (Inl e')
        with ex tr w[of t' e'] show ?thesis by (auto simp: etl_run_def)
      next
        case (Inr t'')
        with v[of t' t''] have ok: "validate_all (fst t') (snd t') = Inr True" and "t'' = t'"
          by simp_all
        with ex tr Inr show ?thesis
          by (cases "etl_load env t' db"; cases t') (auto simp: etl_run_def)
      qed
    qed
  qed
qed

text \<open>
  The run of the example goes through the four stages; with a motive key that is in no
  dimension table, validation raises and the database stays as it was.
\<close>

theorem stages_in_order_witness:
  "(\<exists>raw t. etl_extract example_runtime example_environment_unknown_key = Inr raw \<and>
      etl_transform example_runtime example_environment_unknown_key raw = Inr t \<and>
      validate_all (fst t) (snd t) = Inl (SchemaError ''travel_motive_key'' ''isin'')) \<and>
   etl_run example_runtime example_environment_unknown_key example_database =
     \<lparr>outcome = Inl (SchemaError ''travel_motive_key'' ''isin''), database = example_database,
      stages = [Extract, Transform, Validate]\<rparr> \<and>
   Load \<notin> set (stages (etl_run example_runtime example_environment_unknown_key example_database)) \<and>
   database (etl_run example_runtime example_environment_unknown_key example_database) = example_database \<and>
   outcome (etl_run example_runtime example_environment example_database) = Inr example_result \<and>
   stages (etl_run example_runtime example_environment example_database) =
     [Extract, Transform, Validate, Load]"
proof -
  have 1: "Load \<notin> set (stages (etl_run example_runtime example_environment_unknown_key example_database))"
    by (simp add: example_run_unknown_key)
  have 2: "\<exists>r. outcome (etl_run example_runtime example_environment example_database) = Inr r"
    by (simp add: example_run)
  obtain raw where raw: "etl_extract example_runtime example_environment_unknown_key = Inr raw"
    using example_run_unknown_key
    by (cases "etl_extract example_runtime example_environment_unknown_key")
       (auto simp: etl_run_def)
  obtain t where t: "etl_transform example_runtime example_environment_unknown_key raw = Inr t"
    using example_run_unknown_key raw
    by (cases "etl_transform example_runtime example_environment_unknown_key raw")
       (auto simp: etl_run_def)
  have val: "validate_all (fst t) (snd t) = Inl (SchemaError ''travel_motive_key'' ''isin'')"
    using example_run_unknown_key raw t
    by (cases "validate_all (fst t) (snd t)")
       (auto simp: etl_run_def etl_validate_def split: prod.splits)
  from stages_in_order[of example_runtime example_environment_unknown_key example_database
      "SchemaError ''travel_motive_key'' ''isin''" raw t] 1 raw t val
  have a: "etl_run example_runtime example_environment_unknown_key example_database =
     \<lparr>outcome = Inl (SchemaError ''travel_motive_key'' ''isin''), database = example_database,
      stages = [Extract, Transform, Validate]\<rparr>"
    by blast
  from stages_in_order[of example_runtime example_environment example_database] 2
  have b: "stages (etl_run example_runtime example_environment example_database) =
     [Extract, Transform, Validate, Load]" by blast
  from raw t val have c: "\<exists>raw t. etl_extract example_runtime example_environment_unknown_key = Inr raw \<and>
      etl_transform example_runtime example_environment_unknown_key raw = Inr t \<and>
      validate_all (fst t) (snd t) = Inl (SchemaError ''travel_motive_key'' ''isin'')"
    by blast
  from a b c show ?thesis by (simp add: example_run)
qed

section \<open>C9: a section that cannot be read\<close>

text \<open>
  C9.  \<open>parse\<close> returns for every document: the exception raised by the reading of a
  section is caught.  What is reported is, in the order of the headers, the name of each
  section whose reading raised, with the exception.  The mapping returned holds, for each
  name, the frame of the last section of that name that was read; when the names are
  distinct it is the list of the sections that were read, in order, so a section whose
  reading raised is reported and is not in the mapping, and a section that was read is
  in it with its frame.
\<close>

theorem partial_section_tolerance:
  "parse R sep (Some content) = Inr (parse_content R sep content) \<and>
   snd (parse_content R sep content) = section_failures R sep content \<and>
   map_of (fst (parse_content R sep content)) = map_of (rev (section_frames R sep content)) \<and>
   (distinct (find_sections content) \<longrightarrow>
      fst (parse_content R sep content) = section_frames R sep content) \<and>
   (i < length (find_sections content) \<and>
    section_result R sep content (find_sections content) i = Some (Inl e) \<longrightarrow>
      (find_sections content ! i, e) \<in> set (snd (parse_content R sep content)) \<and>
      (distinct (find_sections content) \<longrightarrow>
         find_sections content ! i \<notin> fst ` set (fst (parse_content R sep content)))) \<and>
   (j < length (find_sections content) \<and> distinct (find_sections content) \<and>
    section_result R sep content (find_sections content) j = Some (Inr df) \<longrightarrow>
      map_of (fst (parse_content R sep content)) (find_sections content ! j) = Some df)"
proof (intro conjI impI)
  show "parse R sep (Some content) = Inr (parse_content R sep content)"
    by (simp add: parse_def)
  show "snd (parse_content R sep content) = section_failures R sep content"
    by (rule parse_content_log)
  show "map_of (fst (parse_content R sep content)) = map_of (rev (section_frames R sep content))"
    by (rule parse_content_map)
  show "fst (parse_content R sep content) = section_frames R sep content"
    if "distinct (find_sections content)" using that by (rule parse_content_frames)
next
  assume a: "i < length (find_sections content) \<and>
    section_result R sep content (find_sections content) i = Some (Inl e)"
  then show "(find_sections content ! i, e) \<in> set (snd (parse_content R sep content))"
    unfolding parse_content_log section_failures_mem by blast
  assume d: "distinct (find_sections content)"
  show "find_sections content ! i \<notin> fst ` set (fst (parse_content R sep content))"
  proof
    assume "find_sections content ! i \<in> fst ` set (fst (parse_content R sep content))"
    then obtain df where "(find_sections content ! i, df) \<in> set (section_frames R sep content)"
      unfolding parse_content_frames[OF d] by auto
    then obtain k where k: "k < length (find_sections content)"
        "find_sections content ! k = find_sections content ! i"
        "section_result R sep content (find_sections content) k = Some (Inr df)"
      unfolding section_frames_mem by blast
    with d a have "k = i" by (simp add: nth_eq_iff_index_eq)
    with k a show False by simp
  qed
next
  assume a: "j < length (find_sections content) \<and> distinct (find_sections content) \<and>
    section_result R sep content (find_sections content) j = Some (Inr df)"
  then have m: "(find_sections content ! j, df) \<in> set (fst (parse_content R sep content))"
    unfolding parse_content_frames[of content R sep, OF a[THEN conjunct2, THEN conjunct1]]
      section_frames_mem by blast
  from parse_content_distinct_keys[of R sep content] m
  show "map_of (fst (parse_content R sep content)) (find_sections content ! j) = Some df"
    by simp
qed

lemma example_malformed_parse:
  "parse_content example_runtime '';'' example_metadata_malformed =
     ([(''Population'', example_raw_dimension ''P1'' ''Adults''),
       (''Periods'', example_raw_dimension ''2023JJ00'' ''Year 2023'')],
      [(''TravelModes'', ReadError ''ParserError'')])"
  by code_simp

text \<open>
  Of the three sections of the example the second is malformed: the result holds the
  first and the third, and the second is reported.
\<close>

theorem partial_section_tolerance_witness:
  "find_sections example_metadata_malformed = [''Population'', ''TravelModes'', ''Periods''] \<and>
   section_result example_runtime '';'' example_metadata_malformed
     (find_sections example_metadata_malformed) 1 = Some (Inl (ReadError ''ParserError'')) \<and>
   section_result example_runtime '';'' example_metadata_malformed
     (find_sections example_metadata_malformed) 0 = Some (Inr (example_raw_dimension ''P1'' ''Adults'')) \<and>
   parse example_runtime '';'' (Some example_metadata_malformed) =
     Inr ([(''Population'', example_raw_dimension ''P1'' ''Adults''),
           (''Periods'', example_raw_dimension ''2023JJ00'' ''Year 2023'')],
          [(''TravelModes'', ReadError ''ParserError'')]) \<and>
   ''TravelModes'' \<notin> fst ` set (fst (parse_content example_runtime '';'' example_metadata_malformed)) \<and>
   map_of (fst (parse_content example_runtime '';'' example_metadata_malformed)) ''Population'' =
     Some (example_raw_dimension ''P1'' ''Adults'')"
proof -
  have s: "find_sections example_metadata_malformed = [''Population'', ''TravelModes'', ''Periods'']"
    by code_simp
  have r1: "section_result example_runtime '';'' example_metadata_malformed
     (find_sections example_metadata_malformed) 1 = Some (Inl (ReadError ''ParserError''))"
    by code_simp
  have r0: "section_result example_runtime '';'' example_metadata_malformed
     (find_sections example_metadata_malformed) 0 = Some (Inr (example_raw_dimension ''P1'' ''Adults''))"
    by code_simp
  have d: "distinct (find_sections example_metadata_malformed)" by (simp add: s)
  have i: "1 < length (find_sections example_metadata_malformed)"
    "0 < length (find_sections example_metadata_malformed)" by (simp_all add: s)
  note t = partial_section_tolerance[of example_runtime "'';''" example_metadata_malformed 1
      "ReadError ''ParserError''" 0 "example_raw_dimension ''P1'' ''Adults''"]
  from t have a: "parse example_runtime '';'' (Some example_metadata_malformed) =
      Inr (parse_content example_runtime '';'' example_metadata_malformed)" by blast
  from t i r1 d have b: "find_sections example_metadata_malformed ! 1 \<notin>
      fst ` set (fst (parse_content example_runtime '';'' example_metadata_malformed))" by blast
  from t i r0 d have c: "map_of (fst (parse_content example_runtime '';'' example_metadata_malformed))
      (find_sections example_metadata_malformed ! 0) = Some (example_raw_dimension ''P1'' ''Adults'')"
    by blast
  from b c have "''TravelModes'' \<notin>
        fst ` set (fst (parse_content example_runtime '';'' example_metadata_malformed))"
    "map_of (fst (parse_content example_runtime '';'' example_metadata_malformed)) ''Population'' =
       Some (example_raw_dimension ''P1'' ''Adults'')"
    unfolding s by simp_all
  with a s r1 r0 show ?thesis unfolding example_malformed_parse by simp
qed

end
